theory Spec2Isabelle
  imports Complex_Main
begin

section \<open>Data model\<close>

text \<open>
  The runner core of \<^verbatim>\<open>src/schemathesis/runner/impl/core.py\<close>. Python objects
  that the core mutates in place (the \<^verbatim>\<open>TestResult\<close>, the \<^verbatim>\<open>check_results\<close>
  list, the stateful \<^verbatim>\<open>Feedback\<close>) are passed explicitly and returned updated.
  A Python \<^verbatim>\<open>float\<close> is the real number it denotes, and an operation on floats
  rounds its exact result as Python does (section on floats below); wall-clock
  readings (\<^verbatim>\<open>time.monotonic()\<close>) are left out of the events.
\<close>

datatype Status = Success | Failure | Error

record Case =
  case_endpoint :: string
  case_id :: nat

record Response =
  status_code :: nat
  elapsed_seconds :: real

text \<open>The exceptions that the core raises, catches or tells apart.\<close>

datatype exn =
    CheckFailed string "string list"
  | MultipleFailures
  | Flaky string
  | Unsatisfiable string
  | KeyboardInterrupt
  | AssertionError string
  | InvalidSchema string
  | OtherException string

record Check =
  check_name :: string
  check_value :: Status
  check_example :: Case
  check_message :: "string option"

record Interaction =
  interaction_response :: Response
  interaction_status :: Status
  interaction_checks :: "Check list"

record TestResult =
  result_endpoint :: string
  checks :: "Check list"
  errors :: "(exn \<times> Case option) list"
  interactions :: "Interaction list"
  is_errored :: bool
  seed :: "int option"

text \<open>
  Modelled from the spec: the constructor \<^verbatim>\<open>Check(name, value, example, message=None)\<close>
  of \<^verbatim>\<open>models.py\<close>, which is not part of the sources; the spec gives a Check as
  \<^verbatim>\<open>{name, status, case, optional message}\<close>.
\<close>

definition mk_Check :: "string \<Rightarrow> Status \<Rightarrow> Case \<Rightarrow> string option \<Rightarrow> Check" where
  "mk_Check n s c m =
     \<lparr>check_name = n, check_value = s, check_example = c, check_message = m\<rparr>"

text \<open>
  Modelled from the spec: the methods \<^verbatim>\<open>add_success\<close>, \<^verbatim>\<open>add_failure\<close>,
  \<^verbatim>\<open>add_error\<close>, \<^verbatim>\<open>mark_errored\<close> and \<^verbatim>\<open>store_requests_response\<close> of
  \<^verbatim>\<open>TestResult\<close> (\<^verbatim>\<open>models.py\<close>, not part of the sources). The spec says that a
  TestResult collects Checks, captured errors and interaction logs, and that its
  Check list only ever grows: each method appends one entry.
\<close>

definition add_success :: "string \<Rightarrow> Case \<Rightarrow> TestResult \<Rightarrow> TestResult" where
  "add_success n c r = r\<lparr>checks := checks r @ [mk_Check n Success c None]\<rparr>"

definition add_failure :: "string \<Rightarrow> Case \<Rightarrow> string \<Rightarrow> TestResult \<Rightarrow> TestResult" where
  "add_failure n c m r = r\<lparr>checks := checks r @ [mk_Check n Failure c (Some m)]\<rparr>"

definition add_error :: "exn \<Rightarrow> Case option \<Rightarrow> TestResult \<Rightarrow> TestResult" where
  "add_error e ex r = r\<lparr>errors := errors r @ [(e, ex)]\<rparr>"

definition mark_errored :: "TestResult \<Rightarrow> TestResult" where
  "mark_errored r = r\<lparr>is_errored := True\<rparr>"

definition store_requests_response ::
  "Response \<Rightarrow> Status \<Rightarrow> Check list \<Rightarrow> TestResult \<Rightarrow> TestResult" where
  "store_requests_response resp st cs r =
     r\<lparr>interactions := interactions r @
        [\<lparr>interaction_response = resp, interaction_status = st, interaction_checks = cs\<rparr>]\<rparr>"

text \<open>Python's \<^verbatim>\<open>str\<close> of an integer, as the f-strings of the source use it.\<close>

fun str_nat :: "nat \<Rightarrow> string" where
  "str_nat n =
     (if n < 10 then [''0123456789'' ! n]
      else str_nat (n div 10) @ [''0123456789'' ! (n mod 10)])"

declare str_nat.simps [simp del]

definition str_int :: "int \<Rightarrow> string" where
  "str_int i = (if i < 0 then CHR ''-'' # str_nat (nat (- i)) else str_nat (nat i))"

section \<open>Python floats\<close>

text \<open>
  A float is a binary64 number: 53 significant bits, the last of them worth at least
  \<open>2 powi - 1074\<close>. An arithmetic operation gives its exact result rounded to the
  nearest such number, ties to the even one. \<open>bit_length\<close> is that of Python's
  integers; \<open>floor_log2 x\<close> is, for positive \<open>x\<close>, the \<open>k\<close> with
  \<open>2 powi k \<le> x < 2 powi (k + 1)\<close>.
\<close>

fun bit_length :: "nat \<Rightarrow> nat" where
  "bit_length n = (if n = 0 then 0 else Suc (bit_length (n div 2)))"

declare bit_length.simps [simp del]

definition floor_log2 :: "real \<Rightarrow> int" where
  "floor_log2 x =
     (if 1 \<le> x then int (bit_length (nat \<lfloor>x\<rfloor>)) - 1
      else - int (bit_length (nat (\<lceil>1 / x\<rceil> - 1))))"

definition round_half_even :: "real \<Rightarrow> int" where
  "round_half_even y =
     (let f = \<lfloor>y\<rfloor>; d = y - real_of_int f
      in if d < 1 / 2 then f
         else if 1 / 2 < d then f + 1
         else if even f then f else f + 1)"

definition round_to_double :: "real \<Rightarrow> real" where
  "round_to_double x =
     (if x = 0 then 0
      else (let e = max (floor_log2 \<bar>x\<bar> - 52) (- 1074);
                m = round_half_even (\<bar>x\<bar> / 2 powi e)
            in sgn x * real_of_int m * 2 powi e))"

text \<open>
  Python's \<^verbatim>\<open>a / b\<close> on integers: the quotient correctly rounded, \<^verbatim>\<open>OverflowError\<close>
  when the rounded quotient is beyond the largest float, \<^verbatim>\<open>ZeroDivisionError\<close> for
  a zero divisor.
\<close>

definition int_true_divide :: "int \<Rightarrow> int \<Rightarrow> exn + real" where
  "int_true_divide a b =
     (if b = 0 then Inl (OtherException ''ZeroDivisionError'')
      else (let v = round_to_double (real_of_int a / real_of_int b)
            in if 2 ^ 1024 \<le> \<bar>v\<bar> then Inl (OtherException ''OverflowError'') else Inr v))"

text \<open>
  Python's \<^verbatim>\<open>a * b\<close> on floats: the product correctly rounded. A product beyond the
  largest float is \<^verbatim>\<open>inf\<close> in Python; the products of this program are elapsed
  seconds times 1000, which stay far below it.
\<close>

definition float_multiply :: "real \<Rightarrow> real \<Rightarrow> real" where
  "float_multiply a b = round_to_double (a * b)"

section \<open>Check aggregation: \<^verbatim>\<open>run_checks\<close>\<close>

text \<open>
  What one call \<^verbatim>\<open>check(response, case)\<close> does: it returns (a truthy value asks to
  skip the check), raises an \<^verbatim>\<open>AssertionError\<close> with a message, or raises
  something else, which \<^verbatim>\<open>run_checks\<close> does not catch.
\<close>

datatype check_outcome =
    Returns bool
  | RaisesAssertion string
  | RaisesOther exn

record CheckFunction =
  fn_name :: string
  fn_body :: "Response \<Rightarrow> Case \<Rightarrow> check_outcome"

text \<open>
  The mutable objects of \<^verbatim>\<open>run_checks\<close>: the \<^verbatim>\<open>TestResult\<close>, the caller's
  \<^verbatim>\<open>check_results\<close> list and the local \<^verbatim>\<open>errors\<close> list (the messages of the
  collected assertion errors). \<open>invoked\<close> is a log of the predicates that were
  called, in order: it is not in the source and only records the calls.
\<close>

record checks_state =
  cs_result :: TestResult
  cs_check_results :: "Check list"
  cs_errors :: "string list"
  invoked :: "string list"

text \<open>
  Modelled from the spec: \<^verbatim>\<open>get_grouped_exception(name, *errors)\<close> of
  \<^verbatim>\<open>exceptions.py\<close> (not part of the sources): a single grouped failure
  referencing the endpoint's display name and every collected failure.
\<close>

definition get_grouped_exception :: "string \<Rightarrow> string list \<Rightarrow> exn" where
  "get_grouped_exception verbose_name errs = CheckFailed verbose_name errs"

text \<open>The message of a caught assertion: \<^verbatim>\<open>str(exc)\<close>, or the default when that is empty.\<close>

definition assertion_message :: "string \<Rightarrow> string \<Rightarrow> string" where
  "assertion_message name msg =
     (if msg = [] then ''Check '' @ [CHR 0x27] @ name @ [CHR 0x27] @ '' failed'' else msg)"

text \<open>The \<^verbatim>\<open>for check in checks\<close> loop; the second component is a propagating exception.\<close>

fun run_checks_loop ::
  "Case \<Rightarrow> Response \<Rightarrow> CheckFunction list \<Rightarrow> checks_state \<Rightarrow> checks_state \<times> exn option" where
  "run_checks_loop c resp [] st = (st, None)"
| "run_checks_loop c resp (check # rest) st =
     (let st1 = st\<lparr>invoked := invoked st @ [fn_name check]\<rparr> in
      case fn_body check resp c of
        Returns skip_check \<Rightarrow>
          run_checks_loop c resp rest
            (if \<not> skip_check
             then st1\<lparr>cs_result := add_success (fn_name check) c (cs_result st1),
                      cs_check_results := cs_check_results st1 @
                        [mk_Check (fn_name check) Success c None]\<rparr>
             else st1)
      | RaisesAssertion msg \<Rightarrow>
          (let message = assertion_message (fn_name check) msg
           in run_checks_loop c resp rest
                (st1\<lparr>cs_errors := cs_errors st1 @ [message],
                     cs_result := add_failure (fn_name check) c message (cs_result st1),
                     cs_check_results := cs_check_results st1 @
                       [mk_Check (fn_name check) Failure c (Some message)]\<rparr>))
      | RaisesOther e \<Rightarrow> (st1, Some e))"

text \<open>The \<^verbatim>\<open>if max_response_time:\<close> block: \<^verbatim>\<open>None\<close> and \<^verbatim>\<open>0\<close> are both falsy.\<close>

definition response_time_check :: "Case \<Rightarrow> real \<Rightarrow> int option \<Rightarrow> checks_state \<Rightarrow> checks_state" where
  "response_time_check c elapsed_time max_response_time st =
     (case max_response_time of
        None \<Rightarrow> st
      | Some b \<Rightarrow>
          if b = 0 then st
          else if elapsed_time > real_of_int b then
            (let message = ''Response time exceeded the limit of '' @ str_int b @ '' ms''
             in st\<lparr>cs_errors := cs_errors st @ [message],
                   cs_result := add_failure ''max_response_time'' c message (cs_result st)\<rparr>)
          else st\<lparr>cs_result := add_success ''max_response_time'' c (cs_result st)\<rparr>)"

definition run_checks ::
  "Case \<Rightarrow> CheckFunction list \<Rightarrow> Check list \<Rightarrow> TestResult \<Rightarrow> Response \<Rightarrow> real \<Rightarrow> int option
     \<Rightarrow> checks_state \<times> exn option" where
  "run_checks c chks check_results result resp elapsed_time max_response_time =
     (case run_checks_loop c resp chks
             \<lparr>cs_result = result, cs_check_results = check_results, cs_errors = [], invoked = []\<rparr> of
        (st, Some e) \<Rightarrow> (st, Some e)
      | (st, None) \<Rightarrow>
          (let st2 = response_time_check c elapsed_time max_response_time st
           in if cs_errors st2 \<noteq> []
              then (st2, Some (get_grouped_exception (case_endpoint c) (cs_errors st2)))
              else (st2, None)))"

section \<open>Target feedback: \<^verbatim>\<open>run_targets\<close>\<close>

record TargetContext =
  tc_case :: Case
  tc_response :: Response
  tc_response_time :: real

record Target =
  target_name :: string
  target_fn :: "TargetContext \<Rightarrow> exn + real"

text \<open>
  \<^verbatim>\<open>run_targets\<close>. \<^verbatim>\<open>hypothesis.target(value, label=target.__name__)\<close> reports to
  the generation engine; the reports are kept as a list of \<open>(label, value)\<close>. The
  value \<open>Inl e\<close> of \<open>target_fn\<close> is an exception raised by \<^verbatim>\<open>target(context)\<close> or by
  \<^verbatim>\<open>hypothesis.target\<close>: it ends the loop and propagates.
\<close>

fun run_targets ::
  "Target list \<Rightarrow> TargetContext \<Rightarrow> (string \<times> real) list \<Rightarrow> (string \<times> real) list \<times> exn option" where
  "run_targets [] context reports = (reports, None)"
| "run_targets (target # rest) context reports =
     (case target_fn target context of
        Inl e \<Rightarrow> (reports, Some e)
      | Inr v \<Rightarrow> run_targets rest context (reports @ [(target_name target, v)]))"

section \<open>Transport test bodies\<close>

text \<open>
  The objects a test body mutates: the \<^verbatim>\<open>TestResult\<close>, the stateful
  \<^verbatim>\<open>Feedback\<close> and the engine's target reports.
  Modelled from the spec: \<^verbatim>\<open>Feedback.add_test_case(case, response)\<close> of
  \<^verbatim>\<open>stateful.py\<close> (not part of the sources); the spec gives Feedback as the
  accumulator of the \<open>(case, response)\<close> pairs observed, so \<open>add_test_case\<close> appends
  the pair.
\<close>

record transport_state =
  ts_result :: TestResult
  ts_feedback :: "(Case \<times> Response) list"
  ts_targets :: "(string \<times> real) list"

definition add_test_case :: "Case \<Rightarrow> Response \<Rightarrow> transport_state \<Rightarrow> transport_state" where
  "add_test_case c resp ts = ts\<lparr>ts_feedback := ts_feedback ts @ [(c, resp)]\<rparr>"

text \<open>
  \<^verbatim>\<open>prepare_timeout\<close>: milliseconds to seconds by Python's true division of
  integers, \<^verbatim>\<open>None\<close> kept. The division may raise.
\<close>

definition prepare_timeout :: "int option \<Rightarrow> exn + real option" where
  "prepare_timeout timeout =
     (case timeout of
        None \<Rightarrow> Inr None
      | Some t \<Rightarrow> (case int_true_divide t 1000 of Inl e \<Rightarrow> Inl e | Inr v \<Rightarrow> Inr (Some v)))"

text \<open>
  The part shared by the three inner bodies after the call has returned a response
  (lines 298 to 311, 363 to 377 and 430 to 443 of the source, which differ in how the
  response time is measured and in the store method): targets, checks inside
  \<^verbatim>\<open>try ... except CheckFailed ... finally\<close>, then the feedback. An exception of
  \<^verbatim>\<open>run_targets\<close> propagates before the \<^verbatim>\<open>try\<close> statement is reached. The
  elapsed milliseconds are the float product \<^verbatim>\<open>context.response_time * 1000\<close>. The
  status stored is \<open>Failure\<close> only when \<^verbatim>\<open>CheckFailed\<close> was caught; the
  \<^verbatim>\<open>finally\<close> block runs whatever \<^verbatim>\<open>run_checks\<close> raised;
  \<^verbatim>\<open>feedback.add_test_case\<close> stands after the \<^verbatim>\<open>try\<close> statement and is reached
  only when nothing was raised.
\<close>

definition after_call ::
  "Case \<Rightarrow> CheckFunction list \<Rightarrow> Target list \<Rightarrow> bool \<Rightarrow> int option \<Rightarrow> Response \<Rightarrow> real
     \<Rightarrow> transport_state \<Rightarrow> transport_state \<times> (exn + Response)" where
  "after_call c chks targets store_interactions max_response_time response response_time ts =
     (let context = \<lparr>tc_case = c, tc_response = response, tc_response_time = response_time\<rparr>;
          (reports, target_raised) = run_targets targets context (ts_targets ts);
          ts1 = ts\<lparr>ts_targets := reports\<rparr>
      in case target_raised of
           Some e \<Rightarrow> (ts1, Inl e)
         | None \<Rightarrow>
             (let (st, raised) = run_checks c chks [] (ts_result ts1) response
                                   (float_multiply (tc_response_time context) 1000)
                                   max_response_time;
                  status = (case raised of Some (CheckFailed n ms) \<Rightarrow> Failure | _ \<Rightarrow> Success);
                  ts2 = ts1\<lparr>ts_result :=
                          (if store_interactions
                           then store_requests_response response status
                                  (cs_check_results st) (cs_result st)
                           else cs_result st)\<rparr>
              in case raised of
                   Some e \<Rightarrow> (ts2, Inl e)
                 | None \<Rightarrow> (add_test_case c response ts2, Inr response)))"

text \<open>
  \<^verbatim>\<open>_network_test\<close>. The parameter \<open>call\<close> is \<^verbatim>\<open>case.call\<close> with the session,
  headers and TLS flag fixed; it takes the timeout in seconds and may raise.
\<close>

definition inner_network_test ::
  "(real option \<Rightarrow> Case \<Rightarrow> exn + Response) \<Rightarrow> Case \<Rightarrow> CheckFunction list \<Rightarrow> Target list
     \<Rightarrow> real option \<Rightarrow> bool \<Rightarrow> int option \<Rightarrow> transport_state \<Rightarrow> transport_state \<times> (exn + Response)" where
  "inner_network_test call c chks targets timeout store_interactions max_response_time ts =
     (case call timeout c of
        Inl e \<Rightarrow> (ts, Inl e)
      | Inr response \<Rightarrow>
          after_call c chks targets store_interactions max_response_time response
            (elapsed_seconds response) ts)"

text \<open>
  \<^verbatim>\<open>_wsgi_test\<close>. \<open>call_wsgi\<close> returns the response, the seconds measured around the
  call and the captured log records, which go to \<^verbatim>\<open>result.logs\<close>; those are not
  part of the \<open>TestResult\<close> record here.
\<close>

definition inner_wsgi_test ::
  "(Case \<Rightarrow> exn + Response \<times> real) \<Rightarrow> Case \<Rightarrow> CheckFunction list \<Rightarrow> Target list
     \<Rightarrow> bool \<Rightarrow> int option \<Rightarrow> transport_state \<Rightarrow> transport_state \<times> (exn + Response)" where
  "inner_wsgi_test call_wsgi c chks targets store_interactions max_response_time ts =
     (case call_wsgi c of
        Inl e \<Rightarrow> (ts, Inl e)
      | Inr (response, elapsed) \<Rightarrow>
          after_call c chks targets store_interactions max_response_time response elapsed ts)"

text \<open>\<^verbatim>\<open>_asgi_test\<close>.\<close>

definition inner_asgi_test ::
  "(Case \<Rightarrow> exn + Response) \<Rightarrow> Case \<Rightarrow> CheckFunction list \<Rightarrow> Target list
     \<Rightarrow> bool \<Rightarrow> int option \<Rightarrow> transport_state \<Rightarrow> transport_state \<times> (exn + Response)" where
  "inner_asgi_test call_asgi c chks targets store_interactions max_response_time ts =
     (case call_asgi c of
        Inl e \<Rightarrow> (ts, Inl e)
      | Inr response \<Rightarrow>
          after_call c chks targets store_interactions max_response_time response
            (elapsed_seconds response) ts)"

text \<open>
  \<^verbatim>\<open>add_cases\<close>: every \<^verbatim>\<open>add_case\<close> hook gets a copy of the case and the response;
  a truthy result is run through the same inner body. An exception of that run
  propagates and ends the loop.
\<close>

fun add_cases ::
  "(Case \<Rightarrow> Response \<Rightarrow> Case option) list \<Rightarrow> Case \<Rightarrow> Response
     \<Rightarrow> (Case \<Rightarrow> transport_state \<Rightarrow> transport_state \<times> (exn + Response))
     \<Rightarrow> transport_state \<Rightarrow> transport_state \<times> exn option" where
  "add_cases [] c response test ts = (ts, None)"
| "add_cases (case_hook # hooks) c response test ts =
     (case case_hook c response of
        None \<Rightarrow> add_cases hooks c response test ts
      | Some c' \<Rightarrow>
          (case test c' ts of
             (ts', Inl e) \<Rightarrow> (ts', Some e)
           | (ts', Inr r) \<Rightarrow> add_cases hooks c response test ts'))"

text \<open>
  \<^verbatim>\<open>network_test\<close>: the timeout handed to the inner body, and through it to the
  transport, is \<^verbatim>\<open>prepare_timeout(request_timeout)\<close>; an exception of
  \<^verbatim>\<open>prepare_timeout\<close> propagates before anything is called. The default user agent
  goes into the headers, which are part of \<open>call\<close>.
\<close>

definition network_test ::
  "(real option \<Rightarrow> Case \<Rightarrow> exn + Response) \<Rightarrow> (Case \<Rightarrow> Response \<Rightarrow> Case option) list
     \<Rightarrow> Case \<Rightarrow> CheckFunction list \<Rightarrow> Target list \<Rightarrow> int option \<Rightarrow> bool \<Rightarrow> int option
     \<Rightarrow> transport_state \<Rightarrow> transport_state \<times> exn option" where
  "network_test call hooks c chks targets request_timeout store_interactions max_response_time ts =
     (case prepare_timeout request_timeout of
        Inl e \<Rightarrow> (ts, Some e)
      | Inr timeout \<Rightarrow>
          (case inner_network_test call c chks targets timeout store_interactions
                  max_response_time ts of
             (ts', Inl e) \<Rightarrow> (ts', Some e)
           | (ts', Inr response) \<Rightarrow>
               add_cases hooks c response
                 (\<lambda>c'. inner_network_test call c' chks targets timeout store_interactions
                          max_response_time)
                 ts'))"

section \<open>The single test run: \<^verbatim>\<open>run_test\<close>\<close>

text \<open>
  The events of \<^verbatim>\<open>runner/events.py\<close>, with the endpoint as its name; elapsed and
  running times are left out. \<open>AfterExecution\<close> carries the result, the status, the
  captured output and the endpoint.
\<close>

datatype Event =
    Initialized
  | BeforeExecution string int
  | AfterExecution TestResult Status "string list" string
  | Interrupted
  | Finished "TestResult list"

text \<open>
  A generator is the list of its yields, each with the \<^verbatim>\<open>TestResultSet\<close> as it is
  when the generator is suspended at that yield: a consumer that stops early has
  seen the results of that moment only.
\<close>

type_synonym step = "Event \<times> TestResult list"

text \<open>
  The test handed to \<^verbatim>\<open>run_test\<close>: an \<^verbatim>\<open>InvalidSchema\<close> marker, or the function
  driven by the generation engine. Calling that function mutates the result and the
  feedback, captures output and returns or raises; its two attributes are
  \<^verbatim>\<open>_hypothesis_internal_use_seed\<close> and \<^verbatim>\<open>_hypothesis_internal_use_generated_seed\<close>.
\<close>

record test_run =
  run_result :: TestResult
  run_feedback :: "(Case \<times> Response) list"
  run_raised :: "exn option"
  run_output :: "string list"

datatype test_fn =
    InvalidSchemaMarker string
  | Callable "TestResult \<Rightarrow> test_run" "int option" "int option"

definition new_TestResult :: "string \<Rightarrow> TestResult" where
  "new_TestResult endpoint =
     \<lparr>result_endpoint = endpoint, checks = [], errors = [], interactions = [],
      is_errored = False, seed = None\<rparr>"

text \<open>\<^verbatim>\<open>reraise\<close>: the message is chosen by a substring test on the traceback.\<close>

fun contains :: "string \<Rightarrow> string \<Rightarrow> bool" where
  "contains needle [] = (needle = [])"
| "contains needle (x # xs) = (take (length needle) (x # xs) = needle \<or> contains needle xs)"

definition reraise :: "string \<Rightarrow> exn" where
  "reraise traceback =
     (if contains ''assert type_ in TYPE_STRINGS'' traceback
      then InvalidSchema ''Invalid type name''
      else InvalidSchema ''Unknown schema error'')"

text \<open>
  The \<^verbatim>\<open>except\<close> clauses of \<^verbatim>\<open>run_test\<close>, in their order. The value is \<open>None\<close>
  for \<^verbatim>\<open>KeyboardInterrupt\<close> (the generator yields \<open>Interrupted\<close> and returns), and
  otherwise the status with the result as the clause leaves it.
\<close>

definition flaky_message :: string where
  "flaky_message = ''Tests on this endpoint produce unreliable results: '' @ [CHR 0x0A] @
     ''Falsified on the first call but did not on a subsequent one''"

fun handle_outcome :: "exn option \<Rightarrow> TestResult \<Rightarrow> (Status \<times> TestResult) option" where
  "handle_outcome None result = Some (Success, result)"
| "handle_outcome (Some (CheckFailed n ms)) result = Some (Failure, result)"
| "handle_outcome (Some MultipleFailures) result = Some (Failure, result)"
| "handle_outcome (Some (Flaky m)) result =
     (let result1 = mark_errored result;
          flaky_example = (if checks result1 \<noteq> []
                           then Some (check_example (last (checks result1)))
                           else None)
      in Some (Error, add_error (Flaky flaky_message) flaky_example result1))"
| "handle_outcome (Some (Unsatisfiable m)) result =
     Some (Error, add_error
       (Unsatisfiable ''Unable to satisfy schema parameters for this endpoint'') None result)"
| "handle_outcome (Some KeyboardInterrupt) result = None"
| "handle_outcome (Some (AssertionError traceback)) result =
     Some (Error, add_error (reraise traceback) None result)"
| "handle_outcome (Some e) result = Some (Error, add_error e None result)"

text \<open>Python's \<^verbatim>\<open>a or b\<close> on optional integers: \<^verbatim>\<open>None\<close> and \<^verbatim>\<open>0\<close> are falsy.\<close>

definition py_or :: "int option \<Rightarrow> int option \<Rightarrow> int option" where
  "py_or a b = (if a = None \<or> a = Some 0 then b else a)"

text \<open>
  \<^verbatim>\<open>run_test\<close>. The value is the list of its yields and the feedback as the test
  left it. The checks, targets, headers and keyword arguments are inside the test
  function.
\<close>

definition run_test ::
  "string \<Rightarrow> test_fn \<Rightarrow> int \<Rightarrow> TestResult list \<Rightarrow> step list \<times> (Case \<times> Response) list" where
  "run_test endpoint test recursion_level results =
     (let result = new_TestResult endpoint;
          before = (BeforeExecution endpoint recursion_level, results)
      in case test of
           InvalidSchemaMarker msg \<Rightarrow>
             (let result1 = (add_error (InvalidSchema msg) None result)\<lparr>seed := py_or None None\<rparr>
              in ([before, (AfterExecution result1 Error [] endpoint, results @ [result1])], []))
         | Callable f internal_use_seed generated_seed \<Rightarrow>
             (let run = f result in
              case handle_outcome (run_raised run) (run_result run) of
                None \<Rightarrow> ([before, (Interrupted, results)], run_feedback run)
              | Some (status, result1) \<Rightarrow>
                  (let result2 = result1\<lparr>seed := py_or internal_use_seed generated_seed\<rparr>
                   in ([before,
                        (AfterExecution result2 status (run_output run) endpoint, results @ [result2])],
                       run_feedback run))))"

section \<open>The recursive scheduler: \<^verbatim>\<open>_run_tests\<close>\<close>

text \<open>
  The configuration of \<^verbatim>\<open>BaseRunner\<close> that the scheduler and the controller read.
  \<open>get_stateful_tests\<close> is \<^verbatim>\<open>Feedback(self.stateful, endpoint).get_stateful_tests\<close>
  (\<^verbatim>\<open>stateful.py\<close>, not part of the sources), taken as a parameter: from the
  endpoint and the collected feedback it gives the derived
  \<open>(endpoint, test)\<close> pairs. Nothing bounds how deep the derived tests go.
\<close>

record runner =
  exit_first :: bool
  stateful_recursion_limit :: int
  get_stateful_tests :: "string \<Rightarrow> (Case \<times> Response) list \<Rightarrow> (string \<times> test_fn) list"

text \<open>
  The inner loop \<^verbatim>\<open>for event in run_test(...): yield event; if Interrupted: return\<close>:
  the yields forwarded, and whether the loop returned.
\<close>

fun until_interrupted :: "step list \<Rightarrow> step list \<times> bool" where
  "until_interrupted [] = ([], False)"
| "until_interrupted (s # ss) =
     (if fst s = Interrupted then ([s], True)
      else (let (fwd, stop) = until_interrupted ss in (s # fwd, stop)))"

text \<open>The \<^verbatim>\<open>TestResultSet\<close> after a generator has been consumed as far as \<open>steps\<close>.\<close>

definition results_after :: "step list \<Rightarrow> TestResult list \<Rightarrow> TestResult list" where
  "results_after steps results = (if steps = [] then results else snd (last steps))"

text \<open>
  \<^verbatim>\<open>_run_tests\<close>, with \<open>maker(template, settings, seed)\<close> as the list it yields. After
  \<^verbatim>\<open>yield from self._run_tests(...)\<close> at the next level the loop goes on with the
  next endpoint, whatever the nested call yielded.
\<close>

function run_tests ::
  "runner \<Rightarrow> (string \<times> test_fn) list \<Rightarrow> int \<Rightarrow> TestResult list \<Rightarrow> step list" where
  "run_tests cfg [] recursion_level results = []"
| "run_tests cfg ((endpoint, test) # rest) recursion_level results =
     (if recursion_level > stateful_recursion_limit cfg then []
      else
        (let (steps, feedback) = run_test endpoint test recursion_level results;
             (fwd, stop) = until_interrupted steps
         in if stop then fwd
            else
              (let nested = run_tests cfg (get_stateful_tests cfg endpoint feedback)
                              (recursion_level + 1) (results_after fwd results);
                   others = run_tests cfg rest recursion_level
                              (results_after (fwd @ nested) results)
               in fwd @ nested @ others)))"
  by pat_completeness auto
termination
  by (relation "measures [\<lambda>(cfg, tests, level, results). nat (stateful_recursion_limit cfg + 1 - level),
                          \<lambda>(cfg, tests, level, results). length tests]") auto

section \<open>The run controller: \<^verbatim>\<open>execute\<close>\<close>

text \<open>
  The loop of \<^verbatim>\<open>execute\<close> over the delegated generator: the test for the early
  stop comes before the \<^verbatim>\<open>yield\<close>. The value is the events yielded and the
  \<^verbatim>\<open>TestResultSet\<close> when the loop ends.
\<close>

fun forward_events :: "bool \<Rightarrow> step list \<Rightarrow> TestResult list \<Rightarrow> Event list \<times> TestResult list" where
  "forward_events stop_first [] results = ([], results)"
| "forward_events stop_first ((event, snapshot) # rest) results =
     (if stop_first \<and>
         (case event of AfterExecution r status out ep \<Rightarrow> status = Error \<or> status = Failure
                      | _ \<Rightarrow> False)
      then ([], snapshot)
      else (let (events, results') = forward_events stop_first rest snapshot
            in (event # events, results')))"

text \<open>\<^verbatim>\<open>execute\<close>, with the generator \<^verbatim>\<open>self._execute(results)\<close> as a parameter.\<close>

definition execute :: "bool \<Rightarrow> step list \<Rightarrow> Event list" where
  "execute stop_first delegated =
     (let (events, results) = forward_events stop_first delegated []
      in Initialized # events @ [Finished results])"

section \<open>Predicates and inputs used in the statements\<close>

text \<open>No predicate of the list raises anything but an assertion at this response and case.\<close>

definition no_uncaught :: "Case \<Rightarrow> Response \<Rightarrow> CheckFunction list \<Rightarrow> bool" where
  "no_uncaught c resp chks =
     list_all (\<lambda>ch. case fn_body ch resp c of RaisesOther e \<Rightarrow> False | _ \<Rightarrow> True) chks"

text \<open>The entries that one predicate adds to a Check list in the loop of \<^verbatim>\<open>run_checks\<close>.\<close>

definition recorded_entry :: "Case \<Rightarrow> Response \<Rightarrow> CheckFunction \<Rightarrow> Check list" where
  "recorded_entry c resp ch =
     (case fn_body ch resp c of
        Returns skip_check \<Rightarrow> if skip_check then [] else [mk_Check (fn_name ch) Success c None]
      | RaisesAssertion msg \<Rightarrow>
          [mk_Check (fn_name ch) Failure c (Some (assertion_message (fn_name ch) msg))]
      | RaisesOther e \<Rightarrow> [])"

definition is_stop_event :: "Event \<Rightarrow> bool" where
  "is_stop_event event =
     (case event of AfterExecution r status out ep \<Rightarrow> status = Error \<or> status = Failure
                  | _ \<Rightarrow> False)"

definition example_case :: Case where
  "example_case = \<lparr>case_endpoint = ''GET /users'', case_id = 1\<rparr>"

definition other_case :: Case where
  "other_case = \<lparr>case_endpoint = ''GET /users'', case_id = 2\<rparr>"

definition example_response :: Response where
  "example_response = \<lparr>status_code = 200, elapsed_seconds = 15 / 100\<rparr>"

definition passing_check :: CheckFunction where
  "passing_check = \<lparr>fn_name = ''not_a_server_error'', fn_body = (\<lambda>r c. Returns False)\<rparr>"

definition failing_check :: CheckFunction where
  "failing_check =
     \<lparr>fn_name = ''status_code_conformance'', fn_body = (\<lambda>r c. RaisesAssertion ''bad status'')\<rparr>"

definition skipping_check :: CheckFunction where
  "skipping_check = \<lparr>fn_name = ''content_type_conformance'', fn_body = (\<lambda>r c. Returns True)\<rparr>"

text \<open>A predicate that bears the name of the synthetic check and fails.\<close>

definition misnamed_check :: CheckFunction where
  "misnamed_check =
     \<lparr>fn_name = ''max_response_time'', fn_body = (\<lambda>r c. RaisesAssertion ''too slow'')\<rparr>"

definition scoring_target :: Target where
  "scoring_target = \<lparr>target_name = ''response_time'', target_fn = (\<lambda>context. Inr (tc_response_time context))\<rparr>"

definition raising_target :: Target where
  "raising_target =
     \<lparr>target_name = ''broken'', target_fn = (\<lambda>context. Inl (OtherException ''ValueError''))\<rparr>"

text \<open>A transport that times out when, and only when, it is given 1.5 seconds.\<close>

definition timing_out_call :: "real option \<Rightarrow> Case \<Rightarrow> exn + Response" where
  "timing_out_call timeout c =
     (if timeout = Some (3 / 2) then Inl (OtherException ''Timeout'')
      else Inr \<lparr>status_code = 200, elapsed_seconds = 15 / 100\<rparr>)"

definition empty_state :: transport_state where
  "empty_state = \<lparr>ts_result = new_TestResult ''GET /users'', ts_feedback = [], ts_targets = []\<rparr>"

definition passing_test :: test_fn where
  "passing_test =
     Callable (\<lambda>r. \<lparr>run_result = add_success ''not_a_server_error'' example_case r,
                     run_feedback = [(example_case, example_response)],
                     run_raised = None, run_output = []\<rparr>) None (Some 42)"

definition failing_test :: test_fn where
  "failing_test =
     Callable (\<lambda>r. \<lparr>run_result = add_failure ''status_code_conformance'' example_case ''bad status'' r,
                     run_feedback = [],
                     run_raised = Some (CheckFailed ''GET /users'' [''bad status'']),
                     run_output = []\<rparr>) None (Some 42)"

definition interrupted_test :: test_fn where
  "interrupted_test =
     Callable (\<lambda>r. \<lparr>run_result = r, run_feedback = [],
                     run_raised = Some KeyboardInterrupt, run_output = []\<rparr>) None None"

definition flaky_test :: test_fn where
  "flaky_test =
     Callable (\<lambda>r. \<lparr>run_result = add_success ''status_code_conformance'' other_case
                       (add_failure ''status_code_conformance'' example_case ''bad status'' r),
                     run_feedback = [],
                     run_raised = Some (Flaky ''Flaky''), run_output = []\<rparr>) None (Some 42)"

text \<open>
  A runner whose stateful tests never run out: every endpoint that collected feedback
  gives one more test.
\<close>

definition example_runner :: runner where
  "example_runner =
     \<lparr>exit_first = True, stateful_recursion_limit = 1,
      get_stateful_tests = (\<lambda>endpoint feedback.
         if feedback = [] then [] else [(endpoint @ ''/next'', passing_test)])\<rparr>"

text \<open>A runner whose derived test is interrupted by the user.\<close>

definition interrupting_runner :: runner where
  "interrupting_runner =
     \<lparr>exit_first = False, stateful_recursion_limit = 1,
      get_stateful_tests = (\<lambda>endpoint feedback.
         if feedback = [] then [] else [(endpoint @ ''/next'', interrupted_test)])\<rparr>"

section \<open>Facts about \<^verbatim>\<open>run_checks\<close>\<close>

lemma no_uncaught_Cons:
  "no_uncaught c resp (ch # chks) =
     ((\<forall>e. fn_body ch resp c \<noteq> RaisesOther e) \<and> no_uncaught c resp chks)"
  by (auto simp: no_uncaught_def split: check_outcome.splits)

lemma loop_invoked:
  "no_uncaught c resp chks \<Longrightarrow>
     invoked (fst (run_checks_loop c resp chks st)) = invoked st @ map fn_name chks
     \<and> snd (run_checks_loop c resp chks st) = None"
proof (induction chks arbitrary: st)
  case Nil
  then show ?case by simp
next
  case (Cons ch chks)
  then show ?case
    by (cases "fn_body ch resp c") (simp_all add: no_uncaught_Cons Let_def)
qed

lemma loop_checks:
  "no_uncaught c resp chks \<Longrightarrow>
     checks (cs_result (fst (run_checks_loop c resp chks st)))
       = checks (cs_result st) @ concat (map (recorded_entry c resp) chks)"
proof (induction chks arbitrary: st)
  case Nil
  then show ?case by simp
next
  case (Cons ch chks)
  then show ?case
    by (cases "fn_body ch resp c")
       (simp_all add: no_uncaught_Cons Let_def recorded_entry_def add_success_def add_failure_def)
qed

lemma loop_check_results:
  "no_uncaught c resp chks \<Longrightarrow>
     cs_check_results (fst (run_checks_loop c resp chks st))
       = cs_check_results st @ concat (map (recorded_entry c resp) chks)"
proof (induction chks arbitrary: st)
  case Nil
  then show ?case by simp
next
  case (Cons ch chks)
  then show ?case
    by (cases "fn_body ch resp c")
       (simp_all add: no_uncaught_Cons Let_def recorded_entry_def)
qed

lemma length_concat_recorded:
  "no_uncaught c resp chks \<Longrightarrow>
   length (concat (map (recorded_entry c resp) chks))
     = length (filter (\<lambda>ch. fn_body ch resp c \<noteq> Returns True) chks)"
  by (induction chks) (auto simp: no_uncaught_Cons recorded_entry_def split: check_outcome.splits)

lemma response_time_check_checks:
  "checks (cs_result (response_time_check c E mrt st)) =
     checks (cs_result st) @
       (case mrt of
          None \<Rightarrow> []
        | Some b \<Rightarrow>
            if b = 0 then []
            else if E > real_of_int b
            then [mk_Check ''max_response_time'' Failure c
                    (Some (''Response time exceeded the limit of '' @ str_int b @ '' ms''))]
            else [mk_Check ''max_response_time'' Success c None])"
  by (simp add: response_time_check_def add_failure_def add_success_def Let_def split: option.splits)

lemma response_time_check_other [simp]:
  "cs_check_results (response_time_check c E mrt st) = cs_check_results st"
  "invoked (response_time_check c E mrt st) = invoked st"
  by (simp_all add: response_time_check_def Let_def split: option.splits)

lemma run_checks_fst:
  assumes "no_uncaught c resp chks"
  shows "fst (run_checks c chks cr r resp E mrt) =
           response_time_check c E mrt
             (fst (run_checks_loop c resp chks
                \<lparr>cs_result = r, cs_check_results = cr, cs_errors = [], invoked = []\<rparr>))"
proof -
  let ?init = "\<lparr>cs_result = r, cs_check_results = cr, cs_errors = [], invoked = []\<rparr>"
  obtain st x where lp: "run_checks_loop c resp chks ?init = (st, x)"
    by (cases "run_checks_loop c resp chks ?init")
  with loop_invoked [OF assms, of ?init] have "x = None" by simp
  with lp show ?thesis by (simp add: run_checks_def Let_def)
qed

lemma run_checks_checks:
  assumes "no_uncaught c resp chks"
  shows "checks (cs_result (fst (run_checks c chks cr r resp E mrt))) =
           checks r @ concat (map (recorded_entry c resp) chks) @
           (case mrt of
              None \<Rightarrow> []
            | Some b \<Rightarrow>
                if b = 0 then []
                else if E > real_of_int b
                then [mk_Check ''max_response_time'' Failure c
                        (Some (''Response time exceeded the limit of '' @ str_int b @ '' ms''))]
                else [mk_Check ''max_response_time'' Success c None])"
  by (simp add: run_checks_fst [OF assms] response_time_check_checks loop_checks [OF assms])

lemma run_checks_check_results:
  assumes "no_uncaught c resp chks"
  shows "cs_check_results (fst (run_checks c chks cr r resp E mrt)) =
           cr @ concat (map (recorded_entry c resp) chks)"
  by (simp add: run_checks_fst [OF assms] loop_check_results [OF assms])

text \<open>
  Claim C5, as amended. When no predicate raises anything but an assertion,
  \<^verbatim>\<open>run_checks\<close> adds to the Checks of the \<^verbatim>\<open>TestResult\<close> exactly one entry
  for every predicate that does not return a truthy value (a truthy return asks to
  skip the check, and then nothing is recorded), and one synthetic entry more when
  the response-time budget is neither \<^verbatim>\<open>None\<close> nor \<^verbatim>\<open>0\<close>.
\<close>

theorem run_checks_one_entry_per_unskipped_predicate:
  assumes "no_uncaught c resp chks"
  shows "length (checks (cs_result (fst (run_checks c chks cr r resp E mrt)))) =
           length (checks r)
           + length (filter (\<lambda>ch. fn_body ch resp c \<noteq> Returns True) chks)
           + (if mrt = None \<or> mrt = Some 0 then 0 else 1)"
  by (simp add: run_checks_checks [OF assms] length_concat_recorded [OF assms] split: option.splits)

text \<open>
  An instance of the amended statement: three predicates (one passes, one asks to be skipped, one fails)
  with a budget of 100 ms and 150 ms elapsed: three entries.
\<close>

theorem run_checks_one_entry_per_unskipped_predicate_witness:
  "no_uncaught example_case example_response [passing_check, skipping_check, failing_check] \<and>
   length (checks (cs_result (fst (run_checks example_case
       [passing_check, skipping_check, failing_check] [] (new_TestResult ''GET /users'')
       example_response 150 (Some 100))))) = 3"
proof -
  have h: "no_uncaught example_case example_response [passing_check, skipping_check, failing_check]"
    by (simp add: no_uncaught_def passing_check_def skipping_check_def failing_check_def)
  show ?thesis
    using h run_checks_one_entry_per_unskipped_predicate
              [OF h, of "[]" "new_TestResult ''GET /users''" 150 "Some 100"]
    by (simp add: passing_check_def skipping_check_def failing_check_def new_TestResult_def)
qed

text \<open>
  The statement as first given fails: a predicate that returns a truthy value is invoked and leaves
  the recorded Check list as it was.
\<close>

theorem skipped_predicate_records_nothing:
  "invoked (fst (run_checks example_case [skipping_check] []
      (new_TestResult ''GET /users'') example_response 150 None)) = [''content_type_conformance'']
   \<and> checks (cs_result (fst (run_checks example_case [skipping_check] []
      (new_TestResult ''GET /users'') example_response 150 None))) = []"
  by (simp add: run_checks_def skipping_check_def new_TestResult_def response_time_check_def Let_def)

text \<open>
  Claim C8, as amended. For a budget \<open>B\<close> other than \<^verbatim>\<open>0\<close> and \<open>E\<close> milliseconds
  elapsed, when no predicate raises anything but an assertion, \<^verbatim>\<open>run_checks\<close>
  records after the entries of the predicates one Check named
  \<^verbatim>\<open>max_response_time\<close>: a failure with the message
  \<^verbatim>\<open>Response time exceeded the limit of <B> ms\<close> if \<open>E > B\<close>, a success otherwise.
\<close>

theorem max_response_time_check_iff_exceeded:
  assumes "no_uncaught c resp chks" and "b \<noteq> 0"
  shows "checks (cs_result (fst (run_checks c chks cr r resp E (Some b)))) =
           checks (cs_result (fst (run_checks c chks cr r resp E None))) @
           [if E > real_of_int b
            then mk_Check ''max_response_time'' Failure c
                   (Some (''Response time exceeded the limit of '' @ str_int b @ '' ms''))
            else mk_Check ''max_response_time'' Success c None]"
  using assms(2) by (simp add: run_checks_checks [OF assms(1)])

text \<open>An instance of the amended statement: a budget of 100 ms and 150 ms elapsed.\<close>

theorem max_response_time_check_iff_exceeded_witness:
  "no_uncaught example_case example_response [passing_check] \<and> (100::int) \<noteq> 0 \<and>
   checks (cs_result (fst (run_checks example_case [passing_check] []
       (new_TestResult ''GET /users'') example_response 150 (Some 100)))) =
     [mk_Check ''not_a_server_error'' Success example_case None,
      mk_Check ''max_response_time'' Failure example_case
        (Some ''Response time exceeded the limit of 100 ms'')]"
proof -
  have h: "no_uncaught example_case example_response [passing_check]"
    by (simp add: no_uncaught_def passing_check_def)
  have n: "(100::int) \<noteq> 0" by simp
  have s: "str_int 100 = ''100''"
    by (simp add: str_int_def str_nat.simps)
  have base: "checks (cs_result (fst (run_checks example_case [passing_check] []
       (new_TestResult ''GET /users'') example_response 150 None))) =
       [mk_Check ''not_a_server_error'' Success example_case None]"
    by (simp add: run_checks_def passing_check_def new_TestResult_def response_time_check_def
          add_success_def Let_def)
  show ?thesis
    using h n max_response_time_check_iff_exceeded
              [OF h n, of "[]" "new_TestResult ''GET /users''" 150]
    by (simp add: base s)
qed

text \<open>
  The statement as first given fails at the budget \<^verbatim>\<open>0\<close>, which \<^verbatim>\<open>if max_response_time:\<close> takes
  as no budget: 5 ms elapsed exceed it and no Check is recorded.
\<close>

theorem zero_budget_records_no_check:
  "(5::real) > real_of_int 0 \<and>
   checks (cs_result (fst (run_checks example_case [] []
      (new_TestResult ''GET /users'') example_response 5 (Some 0)))) = []"
  by (simp add: run_checks_def new_TestResult_def response_time_check_def Let_def)

text \<open>
  Claim C4, as amended. When no predicate raises anything but an assertion,
  \<^verbatim>\<open>run_checks\<close> calls every predicate of the list once, in the order of the list,
  whatever the earlier ones returned or asserted; and when the budget is neither
  \<^verbatim>\<open>None\<close> nor \<^verbatim>\<open>0\<close>, the last Check of the \<^verbatim>\<open>TestResult\<close> is the one named
  \<^verbatim>\<open>max_response_time\<close>.
\<close>

theorem run_checks_invokes_every_predicate_once:
  assumes "no_uncaught c resp chks"
  shows "invoked (fst (run_checks c chks cr r resp E mrt)) = map fn_name chks \<and>
         (\<forall>b. mrt = Some b \<and> b \<noteq> 0 \<longrightarrow>
            checks (cs_result (fst (run_checks c chks cr r resp E mrt))) \<noteq> [] \<and>
            check_name (last (checks (cs_result (fst (run_checks c chks cr r resp E mrt)))))
              = ''max_response_time'')"
proof -
  have "invoked (fst (run_checks c chks cr r resp E mrt)) = map fn_name chks"
    using loop_invoked [OF assms] by (simp add: run_checks_fst [OF assms])
  moreover have "checks (cs_result (fst (run_checks c chks cr r resp E mrt))) \<noteq> [] \<and>
        check_name (last (checks (cs_result (fst (run_checks c chks cr r resp E mrt)))))
          = ''max_response_time''" if "mrt = Some b" "b \<noteq> 0" for b
    using that by (simp add: run_checks_checks [OF assms] mk_Check_def)
  ultimately show ?thesis by blast
qed

text \<open>An instance of the amended statement: a failing predicate followed by a passing one, budget 100 ms.\<close>

theorem run_checks_invokes_every_predicate_once_witness:
  "no_uncaught example_case example_response [failing_check, passing_check] \<and>
   invoked (fst (run_checks example_case [failing_check, passing_check] []
       (new_TestResult ''GET /users'') example_response 50 (Some 100)))
     = [''status_code_conformance'', ''not_a_server_error''] \<and>
   check_name (last (checks (cs_result (fst (run_checks example_case
       [failing_check, passing_check] [] (new_TestResult ''GET /users'')
       example_response 50 (Some 100)))))) = ''max_response_time''"
proof -
  have h: "no_uncaught example_case example_response [failing_check, passing_check]"
    by (simp add: no_uncaught_def passing_check_def failing_check_def)
  show ?thesis
    using h run_checks_invokes_every_predicate_once
              [OF h, of "[]" "new_TestResult ''GET /users''" 50 "Some 100"]
    by (simp add: passing_check_def failing_check_def)
qed

text \<open>
  The statement as first given fails at the budget \<^verbatim>\<open>0\<close>: the budget is given and the last Check
  recorded is that of the predicate.
\<close>

theorem zero_budget_last_check_is_a_predicate:
  "checks (cs_result (fst (run_checks example_case [passing_check] []
      (new_TestResult ''GET /users'') example_response 150 (Some 0)))) =
     [mk_Check ''not_a_server_error'' Success example_case None]"
  by (simp add: run_checks_def passing_check_def new_TestResult_def response_time_check_def
        add_success_def Let_def)

section \<open>Facts about Python floats\<close>

lemma bit_length_bounds:
  "0 < n \<Longrightarrow> 2 ^ (bit_length n - 1) \<le> n \<and> n < 2 ^ bit_length n"
proof (induction n rule: bit_length.induct)
  case (1 n)
  show ?case
  proof (cases "n div 2 = 0")
    case True
    with "1.prems" have "n = 1" by (simp add: div_eq_0_iff) 
    then show ?thesis by (simp add: bit_length.simps)
  next
    case False
    then have pos: "0 < n div 2" by simp
    from "1.prems" have n0: "n \<noteq> 0" by simp
    from "1.IH" [OF n0 pos]
    have lo: "2 ^ (bit_length (n div 2) - 1) \<le> n div 2" and hi: "n div 2 < 2 ^ bit_length (n div 2)"
      by simp_all
    have bl: "bit_length n = Suc (bit_length (n div 2))"
      using n0 by (subst bit_length.simps) simp
    have "bit_length (n div 2) \<noteq> 0"
      using pos by (subst bit_length.simps) simp
    then obtain k where k: "bit_length (n div 2) = Suc k" by (cases "bit_length (n div 2)") auto
    from lo k have "2 ^ k \<le> n div 2" by simp
    then have "2 * 2 ^ k \<le> n" by linarith
    moreover from hi k have "n div 2 < 2 * 2 ^ k" by simp
    then have "n < 2 * (2 * 2 ^ k)" by linarith
    ultimately show ?thesis by (simp add: bl k)
  qed
qed

lemma floor_log2_bounds:
  assumes "0 < x"
  shows "2 powi floor_log2 x \<le> x \<and> x < 2 powi (floor_log2 x + 1)"
proof (cases "1 \<le> x")
  case True
  let ?n = "nat \<lfloor>x\<rfloor>"
  from True have n: "0 < ?n" by simp
  from bit_length_bounds [OF n] have lo: "2 ^ (bit_length ?n - 1) \<le> ?n" and hi: "?n < 2 ^ bit_length ?n"
    by simp_all
  have "bit_length ?n \<noteq> 0" using n by (subst bit_length.simps) simp
  then obtain k where k: "bit_length ?n = Suc k" by (cases "bit_length ?n") auto
  have fl: "floor_log2 x = int k" using True by (simp add: floor_log2_def k)
  from lo k have "(2::nat) ^ k \<le> ?n" by simp
  then have "real ((2::nat) ^ k) \<le> real ?n" by (rule of_nat_mono)
  also have "real ?n \<le> x" using True by simp
  finally have a: "2 ^ k \<le> x" by simp
  from hi k have "?n + 1 \<le> 2 ^ Suc k" by simp
  then have "real (?n + 1) \<le> real (2 ^ Suc k)" by (rule of_nat_mono)
  moreover have "x < real (?n + 1)" using True by simp linarith
  ultimately have b: "x < 2 ^ Suc k" by simp
  have "2 powi (int k + 1) = (2::real) ^ Suc k"
    by (metis of_nat_Suc power_int_of_nat add.commute of_nat_1 of_nat_add)
  with a b fl show ?thesis by simp
next
  case False
  with assms have x1: "x < 1" by simp
  let ?y = "1 / x"
  from assms x1 have y1: "1 < ?y" by simp
  let ?m = "nat (\<lceil>?y\<rceil> - 1)"
  from y1 have cy: "2 \<le> \<lceil>?y\<rceil>" by (simp add: le_ceiling_iff) 
  then have m: "0 < ?m" by simp
  from bit_length_bounds [OF m] have lo: "2 ^ (bit_length ?m - 1) \<le> ?m" and hi: "?m < 2 ^ bit_length ?m"
    by simp_all
  have "bit_length ?m \<noteq> 0" using m by (subst bit_length.simps) simp
  then obtain j where j: "bit_length ?m = Suc j" by (cases "bit_length ?m") auto
  have fl: "floor_log2 x = - int (Suc j)" using False by (simp add: floor_log2_def j)
  from cy have nn: "0 \<le> \<lceil>?y\<rceil> - 1" by linarith
  have "real ?m = real_of_int (\<lceil>?y\<rceil> - 1)" using nn by (rule of_nat_nat)
  then have m_eq: "real ?m = real_of_int \<lceil>?y\<rceil> - 1" by simp
  from hi j have "?m + 1 \<le> 2 ^ Suc j" by simp
  then have "real (?m + 1) \<le> real (2 ^ Suc j)" by (rule of_nat_mono)
  then have "real_of_int \<lceil>?y\<rceil> \<le> 2 ^ Suc j" using m_eq by simp
  then have yhi: "?y \<le> 2 ^ Suc j" using le_of_int_ceiling [of ?y] by linarith
  from lo j have "(2::nat) ^ j \<le> ?m" by simp
  then have "real ((2::nat) ^ j) \<le> real ?m" by (rule of_nat_mono)
  then have "2 ^ j \<le> real_of_int \<lceil>?y\<rceil> - 1" using m_eq by simp
  moreover have "real_of_int \<lceil>?y\<rceil> - 1 < ?y" by linarith
  ultimately have ylo: "2 ^ j < ?y" by linarith
  have a: "1 / 2 ^ Suc j \<le> x"
  proof -
    from yhi assms have "1 \<le> x * 2 ^ Suc j" by (simp add: field_simps)
    then show ?thesis by (simp add: field_simps)
  qed
  have b: "x < 1 / 2 ^ j"
  proof -
    from ylo assms have "x * 2 ^ j < 1" by (simp add: field_simps)
    then show ?thesis by (simp add: field_simps)
  qed
  have p1: "2 powi (- int (Suc j)) = 1 / (2::real) ^ Suc j"
    by (simp only: power_int_minus power_int_of_nat inverse_eq_divide)
  have "- int (Suc j) + 1 = - int j" by simp
  then have p2: "2 powi (- int (Suc j) + 1) = 1 / (2::real) ^ j"
    by (simp only: power_int_minus power_int_of_nat inverse_eq_divide)
  from a b show ?thesis unfolding fl p1 p2 by simp
qed

lemma round_half_even_close: "\<bar>real_of_int (round_half_even y) - y\<bar> \<le> 1 / 2"
  unfolding round_half_even_def Let_def by (auto simp: abs_le_iff)

lemma round_to_double_error:
  assumes "x \<noteq> 0" and "- 1022 \<le> floor_log2 \<bar>x\<bar>"
  shows "\<bar>round_to_double x - x\<bar> \<le> \<bar>x\<bar> / 2 ^ 53"
proof -
  define k where "k = floor_log2 \<bar>x\<bar>"
  define p :: real where "p = 2 powi (k - 52)"
  define m where "m = round_half_even (\<bar>x\<bar> / p)"
  have ppos: "0 < p" by (simp add: p_def)
  have e: "max (floor_log2 \<bar>x\<bar> - 52) (- 1074) = k - 52"
    using assms(2) by (simp add: k_def)
  have v: "round_to_double x = sgn x * real_of_int m * p"
    using assms(1) by (simp add: round_to_double_def Let_def e m_def p_def)
  have "x = sgn x * \<bar>x\<bar>" by (simp add: sgn_mult_abs)
  then have "round_to_double x - x = sgn x * (real_of_int m * p - \<bar>x\<bar>)"
    by (simp add: v algebra_simps)
  then have "\<bar>round_to_double x - x\<bar> = \<bar>real_of_int m * p - \<bar>x\<bar>\<bar>"
    using assms(1) by (simp add: abs_mult abs_sgn_eq)
  also have "real_of_int m * p - \<bar>x\<bar> = p * (real_of_int m - \<bar>x\<bar> / p)"
    using ppos by (simp add: field_simps)
  also have "\<bar>p * (real_of_int m - \<bar>x\<bar> / p)\<bar> = p * \<bar>real_of_int m - \<bar>x\<bar> / p\<bar>"
    using ppos by (simp add: abs_mult)
  also have "\<dots> \<le> p * (1 / 2)"
    using ppos round_half_even_close [of "\<bar>x\<bar> / p"] unfolding m_def
    by (intro mult_left_mono) simp_all
  also have "p * (1 / 2) = 2 powi k / 2 ^ 53"
  proof -
    have "(2::real) powi k = 2 powi (k - 52) * 2 powi 52"
      using power_int_add [of "2::real" "k - 52" 52] by simp
    then show ?thesis by (simp add: p_def)
  qed
  also have "\<dots> \<le> \<bar>x\<bar> / 2 ^ 53"
    using floor_log2_bounds [of "\<bar>x\<bar>"] assms(1) by (simp add: k_def divide_right_mono)
  finally show ?thesis .
qed

lemma floor_log2_thousandth:
  assumes "1 / 1000 \<le> x"
  shows "- 10 \<le> floor_log2 x"
proof (rule ccontr)
  assume "\<not> - 10 \<le> floor_log2 x"
  then have "floor_log2 x + 1 \<le> - 10" by simp
  then have "(2::real) powi (floor_log2 x + 1) \<le> 2 powi (- 10)"
    by (intro power_int_increasing) simp_all
  moreover have "x < 2 powi (floor_log2 x + 1)"
    using floor_log2_bounds [of x] assms by simp
  ultimately have "x < 2 powi (- 10)" by simp
  with assms show False by simp
qed

lemma round_to_double_eval:
  assumes "x \<noteq> 0" and "floor_log2 \<bar>x\<bar> = k" and "max (k - 52) (- 1074) = e"
    and "round_half_even (\<bar>x\<bar> / 2 powi e) = m"
  shows "round_to_double x = sgn x * real_of_int m * 2 powi e"
  using assms by (simp add: round_to_double_def Let_def)

lemma round_half_even_of_int: "round_half_even (real_of_int n) = n"
  by (simp add: round_half_even_def)

lemma round_to_double_three_halves: "round_to_double (3 / 2) = 3 / 2"
proof -
  have k: "floor_log2 \<bar>3 / 2 :: real\<bar> = 0"
    by (simp add: floor_log2_def bit_length.simps)
  have e: "max (0 - 52) (- 1074) = (- 52 :: int)" by simp
  have "\<bar>3 / 2 :: real\<bar> / 2 powi (- 52) = real_of_int (3 * 2 ^ 51)" by simp
  then have m: "round_half_even (\<bar>3 / 2 :: real\<bar> / 2 powi (- 52)) = 3 * 2 ^ 51"
    by (simp only: round_half_even_of_int)
  show ?thesis
    using round_to_double_eval [OF _ k e m] by simp
qed

lemma round_to_double_150: "round_to_double 150 = 150"
proof -
  have k: "floor_log2 \<bar>150 :: real\<bar> = 7"
    by (simp add: floor_log2_def bit_length.simps)
  have e: "max (7 - 52) (- 1074) = (- 45 :: int)" by simp
  have "\<bar>150 :: real\<bar> / 2 powi (- 45) = real_of_int (150 * 2 ^ 45)" by simp
  then have m: "round_half_even (\<bar>150 :: real\<bar> / 2 powi (- 45)) = 150 * 2 ^ 45"
    by (simp only: round_half_even_of_int)
  show ?thesis
    using round_to_double_eval [OF _ k e m] by simp
qed

lemma round_to_double_thousandth:
  "round_to_double (1 / 1000) = 4611686018427388 / 2 ^ 62"
proof -
  have k: "floor_log2 \<bar>1 / 1000 :: real\<bar> = - 10"
    by (simp add: floor_log2_def bit_length.simps)
  have e: "max (- 10 - 52) (- 1074) = (- 62 :: int)" by simp
  have m: "round_half_even (\<bar>1 / 1000 :: real\<bar> / 2 powi (- 62)) = 4611686018427388"
    by (simp add: round_half_even_def Let_def)
  show ?thesis
    using round_to_double_eval [OF _ k e m] by simp
qed

lemma pow2_less_imp_less:
  assumes "(2::real) powi a < 2 powi b"
  shows "a < b"
proof (rule ccontr)
  assume "\<not> a < b"
  then have "b \<le> a" by simp
  then have "(2::real) powi b \<le> 2 powi a" by (intro power_int_increasing) simp_all
  with assms show False by simp
qed

lemma floor_log2_eqI:
  assumes "2 powi k \<le> x" and "x < 2 powi (k + 1)"
  shows "floor_log2 x = k"
proof -
  have "(0::real) < 2 powi k" by simp
  with assms(1) have pos: "0 < x" by linarith
  from floor_log2_bounds [OF pos]
  have lo: "2 powi floor_log2 x \<le> x" and hi: "x < 2 powi (floor_log2 x + 1)" by simp_all
  have "(2::real) powi k < 2 powi (floor_log2 x + 1)" using assms(1) hi by linarith
  then have a: "k < floor_log2 x + 1" by (rule pow2_less_imp_less)
  have "(2::real) powi floor_log2 x < 2 powi (k + 1)" using lo assms(2) by linarith
  then have b: "floor_log2 x < k + 1" by (rule pow2_less_imp_less)
  from a b show ?thesis by simp
qed

lemma round_to_double_overflow: "round_to_double (2 ^ 1024) = 2 ^ 1024"
proof -
  have k: "floor_log2 \<bar>2 ^ 1024 :: real\<bar> = 1024"
    by (rule floor_log2_eqI) simp_all
  have e: "max (1024 - 52) (- 1074) = (972 :: int)" by simp
  have "\<bar>2 ^ 1024 :: real\<bar> / 2 powi 972 = real_of_int (2 ^ 52)" by simp
  then have m: "round_half_even (\<bar>2 ^ 1024 :: real\<bar> / 2 powi 972) = 2 ^ 52"
    by (simp only: round_half_even_of_int)
  show ?thesis
    using round_to_double_eval [OF _ k e m] by simp
qed

lemma int_true_divide_error:
  "\<bar>round_to_double (real_of_int T / 1000) - real_of_int T / 1000\<bar> \<le> \<bar>real_of_int T / 1000\<bar> / 2 ^ 53"
proof (cases "T = 0")
  case True
  then show ?thesis by (simp add: round_to_double_def)
next
  case False
  then have "1 \<le> \<bar>T\<bar>" by simp
  then have "real_of_int 1 \<le> real_of_int \<bar>T\<bar>" by (rule of_int_le_iff [THEN iffD2])
  then have "1 \<le> \<bar>real_of_int T\<bar>" by simp
  then have "1 / 1000 \<le> \<bar>real_of_int T / 1000\<bar>" by simp
  then have "- 10 \<le> floor_log2 \<bar>real_of_int T / 1000\<bar>" by (rule floor_log2_thousandth)
  then have "- 1022 \<le> floor_log2 \<bar>real_of_int T / 1000\<bar>" by simp
  moreover have "real_of_int T / 1000 \<noteq> 0" using False by simp
  ultimately show ?thesis by (rule round_to_double_error [rotated])
qed

text \<open>
  The double nearest to 0.1, times 1000, is the float 100: a response that took it does
  not exceed a budget of 100 ms.
\<close>

lemma float_multiply_tenth_second:
  "float_multiply (3602879701896397 / 2 ^ 55) 1000 = 100"
proof -
  let ?x = "3602879701896397 / 2 ^ 55 * 1000 :: real"
  have k: "floor_log2 \<bar>?x\<bar> = 6"
    by (rule floor_log2_eqI) simp_all
  have e: "max (6 - 52) (- 1074) = (- 46 :: int)" by simp
  have m: "round_half_even (\<bar>?x\<bar> / 2 powi (- 46)) = 100 * 2 ^ 46"
    by (simp add: round_half_even_def Let_def)
  have "round_to_double ?x = 100"
    using round_to_double_eval [OF _ k e m] by simp
  then show ?thesis by (simp only: float_multiply_def)
qed

lemma float_multiply_example: "float_multiply (elapsed_seconds example_response) 1000 = 150"
proof -
  have "elapsed_seconds example_response * 1000 = 150" by (simp add: example_response_def)
  then show ?thesis by (simp only: float_multiply_def round_to_double_150)
qed

section \<open>Facts about the transport test bodies\<close>

lemma inner_network_test_timeout:
  "inner_network_test call c chks targets tm store mrt =
   inner_network_test (\<lambda>t. call tm) c chks targets tm store mrt"
  by (rule ext) (simp add: inner_network_test_def)

lemma network_test_transport_raises:
  assumes "prepare_timeout rt = Inr tm" and "call tm c = Inl e"
  shows "network_test call hooks c chks targets rt store mrt ts = (ts, Some e)"
  using assms by (simp add: network_test_def inner_network_test_def)

lemma network_test_only_prepared:
  assumes "prepare_timeout rt = Inr tm"
  shows "network_test call hooks c chks targets rt store mrt ts =
         network_test (\<lambda>t. call tm) hooks c chks targets rt store mrt ts"
  unfolding network_test_def assms sum.case
  by (subst inner_network_test_timeout, subst (2) inner_network_test_timeout) (rule refl)

lemma prepare_timeout_1500: "prepare_timeout (Some 1500) = Inr (Some (3 / 2))"
proof -
  have "real_of_int 1500 / 1000 = (3 / 2 :: real)" by simp
  then show ?thesis
    by (simp add: prepare_timeout_def int_true_divide_def Let_def round_to_double_three_halves)
qed

lemma prepare_timeout_huge:
  "prepare_timeout (Some (1000 * 2 ^ 1024)) = Inl (OtherException ''OverflowError'')"
proof -
  have q: "real_of_int (1000 * 2 ^ 1024) / real_of_int 1000 = (2 ^ 1024 :: real)" by simp
  have "int_true_divide (1000 * 2 ^ 1024) 1000 = Inl (OtherException ''OverflowError'')"
    unfolding int_true_divide_def Let_def q round_to_double_overflow by simp
  then show ?thesis by (simp only: prepare_timeout_def option.case sum.case)
qed

text \<open>
  Claim C7, as amended. \<^verbatim>\<open>prepare_timeout\<close> keeps a missing timeout missing. For
  \<open>T\<close> milliseconds it gives Python's float quotient \<^verbatim>\<open>T / 1000\<close>: \<open>T / 1000\<close> rounded to
  a double, within the relative error \<open>1 / 2 ^ 53\<close> of \<open>T / 1000\<close> and in general not equal
  to it; or it raises \<^verbatim>\<open>OverflowError\<close> when that double is beyond the float range,
  and then \<^verbatim>\<open>network_test\<close> raises it and calls nothing. \<^verbatim>\<open>network_test\<close> hands
  the value of \<^verbatim>\<open>prepare_timeout\<close> to the transport call (an exception that the
  transport raises when given that value comes out of \<^verbatim>\<open>network_test\<close>), and hands
  it no other value.
\<close>

theorem prepare_timeout_is_float_division:
  "prepare_timeout None = Inr None \<and>
   prepare_timeout (Some T) =
     (if 2 ^ 1024 \<le> \<bar>round_to_double (real_of_int T / 1000)\<bar>
      then Inl (OtherException ''OverflowError'')
      else Inr (Some (round_to_double (real_of_int T / 1000)))) \<and>
   \<bar>round_to_double (real_of_int T / 1000) - real_of_int T / 1000\<bar>
     \<le> \<bar>real_of_int T / 1000\<bar> / 2 ^ 53 \<and>
   (prepare_timeout rt = Inl e \<longrightarrow>
      network_test call hooks c chks targets rt store mrt ts = (ts, Some e)) \<and>
   (prepare_timeout rt = Inr tm \<and> call tm c = Inl e \<longrightarrow>
      network_test call hooks c chks targets rt store mrt ts = (ts, Some e)) \<and>
   (prepare_timeout rt = Inr tm \<longrightarrow>
      network_test call hooks c chks targets rt store mrt ts =
      network_test (\<lambda>t. call tm) hooks c chks targets rt store mrt ts)"
proof -
  have a: "prepare_timeout None = Inr None"
    by (simp add: prepare_timeout_def)
  have b: "prepare_timeout (Some T) =
     (if 2 ^ 1024 \<le> \<bar>round_to_double (real_of_int T / 1000)\<bar>
      then Inl (OtherException ''OverflowError'')
      else Inr (Some (round_to_double (real_of_int T / 1000))))"
    by (simp add: prepare_timeout_def int_true_divide_def Let_def)
  have d: "network_test call hooks c chks targets rt store mrt ts = (ts, Some e)"
    if "prepare_timeout rt = Inl e"
    using that by (simp add: network_test_def)
  from a b int_true_divide_error [of T] d
       network_test_transport_raises [of rt tm call c e hooks chks targets store mrt ts]
       network_test_only_prepared [of rt tm call hooks c chks targets store mrt ts]
  show ?thesis by blast
qed

text \<open>
  An instance of the amended statement: 1500 ms are exactly 1.5 s, which a transport
  that times out at 1.5 s receives; a timeout of \<open>1000 * 2 ^ 1024\<close> ms overflows.
\<close>

theorem prepare_timeout_is_float_division_witness:
  "prepare_timeout (Some 1500) = Inr (Some (3 / 2)) \<and>
   timing_out_call (Some (3 / 2)) example_case = Inl (OtherException ''Timeout'') \<and>
   network_test timing_out_call [] example_case [passing_check] [] (Some 1500) False None
     empty_state = (empty_state, Some (OtherException ''Timeout'')) \<and>
   prepare_timeout (Some (1000 * 2 ^ 1024)) = Inl (OtherException ''OverflowError'') \<and>
   network_test timing_out_call [] example_case [passing_check] [] (Some (1000 * 2 ^ 1024))
     False None empty_state = (empty_state, Some (OtherException ''OverflowError''))"
proof -
  have t: "timing_out_call (Some (3 / 2)) example_case = Inl (OtherException ''Timeout'')"
    by (simp add: timing_out_call_def)
  note inst1 = prepare_timeout_is_float_division [where rt = "Some 1500" and tm = "Some (3 / 2)"
      and call = timing_out_call and c = example_case and e = "OtherException ''Timeout''"
      and hooks = "[]" and chks = "[passing_check]" and targets = "[]" and store = False
      and mrt = None and ts = empty_state]
  note inst2 = prepare_timeout_is_float_division [where rt = "Some (1000 * 2 ^ 1024)"
      and e = "OtherException ''OverflowError''"
      and call = timing_out_call and c = example_case
      and hooks = "[]" and chks = "[passing_check]" and targets = "[]" and store = False
      and mrt = None and ts = empty_state]
  have r1: "network_test timing_out_call [] example_case [passing_check] [] (Some 1500) False None
     empty_state = (empty_state, Some (OtherException ''Timeout''))"
    using inst1 prepare_timeout_1500 t by blast
  have r2: "network_test timing_out_call [] example_case [passing_check] []
     (Some (1000 * 2 ^ 1024)) False None empty_state
       = (empty_state, Some (OtherException ''OverflowError''))"
    using inst2 prepare_timeout_huge by blast
  from prepare_timeout_1500 t r1 prepare_timeout_huge r2 show ?thesis by blast
qed

text \<open>
  The statement as first given fails: for 1 ms the value is the double nearest to
  0.001, which is not a thousandth.
\<close>

theorem one_millisecond_is_not_a_thousandth:
  "prepare_timeout (Some 1) = Inr (Some (4611686018427388 / 2 ^ 62)) \<and>
   (4611686018427388 / 2 ^ 62 :: real) \<noteq> 1 / 1000"
proof -
  have "real_of_int 1 / 1000 = (1 / 1000 :: real)" by simp
  then have "prepare_timeout (Some 1) = Inr (Some (4611686018427388 / 2 ^ 62))"
    by (simp add: prepare_timeout_def int_true_divide_def Let_def round_to_double_thousandth)
  then show ?thesis by simp
qed

lemma loop_interactions:
  "interactions (cs_result (fst (run_checks_loop c resp chks st))) = interactions (cs_result st)"
proof (induction chks arbitrary: st)
  case Nil
  then show ?case by simp
next
  case (Cons ch chks)
  then show ?case
    by (cases "fn_body ch resp c") (simp_all add: Let_def add_success_def add_failure_def)
qed

lemma response_time_check_interactions:
  "interactions (cs_result (response_time_check c E mrt st)) = interactions (cs_result st)"
  by (simp add: response_time_check_def add_failure_def add_success_def Let_def split: option.splits)

lemma run_checks_interactions:
  "interactions (cs_result (fst (run_checks c chks cr r resp E mrt))) = interactions r"
proof -
  let ?init = "\<lparr>cs_result = r, cs_check_results = cr, cs_errors = [], invoked = []\<rparr>"
  have "interactions (cs_result (fst (run_checks_loop c resp chks ?init))) = interactions r"
    by (simp add: loop_interactions)
  then show ?thesis
    by (auto simp: run_checks_def Let_def response_time_check_interactions
          split: prod.splits option.splits)
qed

lemma run_checks_snd:
  assumes "no_uncaught c resp chks"
  shows "snd (run_checks c chks cr r resp E mrt) = None \<or>
         (\<exists>ms. snd (run_checks c chks cr r resp E mrt) = Some (CheckFailed (case_endpoint c) ms))"
proof -
  let ?init = "\<lparr>cs_result = r, cs_check_results = cr, cs_errors = [], invoked = []\<rparr>"
  obtain st x where lp: "run_checks_loop c resp chks ?init = (st, x)"
    by (cases "run_checks_loop c resp chks ?init")
  with loop_invoked [OF assms, of ?init] have "x = None" by simp
  with lp show ?thesis by (simp add: run_checks_def Let_def get_grouped_exception_def)
qed

lemma recorded_entry_names:
  "ch' \<in> set (concat (map (recorded_entry c resp) chks)) \<Longrightarrow> check_name ch' \<in> fn_name ` set chks"
  by (induction chks)
     (auto simp: recorded_entry_def mk_Check_def split: check_outcome.splits if_splits)

lemma after_call_target_raised:
  assumes "snd (run_targets targets
             \<lparr>tc_case = c, tc_response = response, tc_response_time = rt\<rparr> (ts_targets ts)) = Some e"
  shows "after_call c chks targets store mrt response rt ts =
           (ts\<lparr>ts_targets := fst (run_targets targets
               \<lparr>tc_case = c, tc_response = response, tc_response_time = rt\<rparr> (ts_targets ts))\<rparr>,
            Inl e)"
proof -
  obtain reports tr where r: "run_targets targets
      \<lparr>tc_case = c, tc_response = response, tc_response_time = rt\<rparr> (ts_targets ts) = (reports, tr)"
    by (cases "run_targets targets
      \<lparr>tc_case = c, tc_response = response, tc_response_time = rt\<rparr> (ts_targets ts)")
  with assms have "tr = Some e" by simp
  with r show ?thesis by (simp add: after_call_def Let_def)
qed

lemma after_call_checked:
  assumes "snd (run_targets targets
             \<lparr>tc_case = c, tc_response = response, tc_response_time = rt\<rparr> (ts_targets ts)) = None"
  shows "snd (after_call c chks targets store mrt response rt ts) =
           (case snd (run_checks c chks [] (ts_result ts) response (float_multiply rt 1000) mrt) of
              None \<Rightarrow> Inr response | Some e \<Rightarrow> Inl e)"
    and "ts_feedback (fst (after_call c chks targets store mrt response rt ts)) =
           (if snd (run_checks c chks [] (ts_result ts) response (float_multiply rt 1000) mrt) = None
            then ts_feedback ts @ [(c, response)] else ts_feedback ts)"
    and "interactions (ts_result (fst (after_call c chks targets store mrt response rt ts))) =
           (if store
            then interactions (ts_result ts) @
              [\<lparr>interaction_response = response,
                interaction_status =
                  (case snd (run_checks c chks [] (ts_result ts) response
                               (float_multiply rt 1000) mrt) of
                     Some (CheckFailed n ms) \<Rightarrow> Failure | _ \<Rightarrow> Success),
                interaction_checks =
                  cs_check_results (fst (run_checks c chks [] (ts_result ts) response
                                           (float_multiply rt 1000) mrt))\<rparr>]
            else interactions (ts_result ts))"
    and "checks (ts_result (fst (after_call c chks targets store mrt response rt ts))) =
           checks (cs_result (fst (run_checks c chks [] (ts_result ts) response
                                     (float_multiply rt 1000) mrt)))"
proof -
  let ?rc = "run_checks c chks [] (ts_result ts) response (float_multiply rt 1000) mrt"
  obtain reports tr where r: "run_targets targets
      \<lparr>tc_case = c, tc_response = response, tc_response_time = rt\<rparr> (ts_targets ts) = (reports, tr)"
    by (cases "run_targets targets
      \<lparr>tc_case = c, tc_response = response, tc_response_time = rt\<rparr> (ts_targets ts)")
  with assms have tr: "tr = None" by simp
  obtain st raised where rc: "?rc = (st, raised)" by (cases ?rc)
  have i: "interactions (cs_result st) = interactions (ts_result ts)"
    using run_checks_interactions [of c chks "[]" "ts_result ts" response "float_multiply rt 1000" mrt]
    by (simp add: rc)
  have ac: "after_call c chks targets store mrt response rt ts =
      (let status = (case raised of Some (CheckFailed n ms) \<Rightarrow> Failure | _ \<Rightarrow> Success);
           ts2 = ts\<lparr>ts_targets := reports,
                    ts_result :=
                      (if store
                       then store_requests_response response status (cs_check_results st) (cs_result st)
                       else cs_result st)\<rparr>
       in case raised of Some e \<Rightarrow> (ts2, Inl e) | None \<Rightarrow> (add_test_case c response ts2, Inr response))"
    by (simp add: after_call_def Let_def r tr rc)
  show "snd (after_call c chks targets store mrt response rt ts) =
           (case snd ?rc of None \<Rightarrow> Inr response | Some e \<Rightarrow> Inl e)"
    by (cases raised) (simp_all add: ac rc Let_def)
  show "ts_feedback (fst (after_call c chks targets store mrt response rt ts)) =
           (if snd ?rc = None then ts_feedback ts @ [(c, response)] else ts_feedback ts)"
    by (cases raised) (simp_all add: ac rc Let_def add_test_case_def)
  show "interactions (ts_result (fst (after_call c chks targets store mrt response rt ts))) =
           (if store
            then interactions (ts_result ts) @
              [\<lparr>interaction_response = response,
                interaction_status =
                  (case snd ?rc of Some (CheckFailed n ms) \<Rightarrow> Failure | _ \<Rightarrow> Success),
                interaction_checks = cs_check_results (fst ?rc)\<rparr>]
            else interactions (ts_result ts))"
    by (cases raised)
       (simp_all add: ac rc Let_def add_test_case_def store_requests_response_def i)
  show "checks (ts_result (fst (after_call c chks targets store mrt response rt ts))) =
           checks (cs_result (fst ?rc))"
    by (cases raised)
       (simp_all add: ac rc Let_def add_test_case_def store_requests_response_def)
qed

lemma run_checks_passing_snd:
  "snd (run_checks example_case [passing_check] [] r example_response E None) = None"
  by (simp add: run_checks_def passing_check_def response_time_check_def Let_def)

lemma run_checks_failing_snd:
  "snd (run_checks example_case [failing_check] [] r example_response E None) =
     Some (CheckFailed ''GET /users'' [''bad status''])"
  by (simp add: run_checks_def failing_check_def response_time_check_def Let_def
        assertion_message_def get_grouped_exception_def example_case_def)

text \<open>
  Claim C3, as amended. In each of the three inner test bodies (network, WSGI, ASGI),
  once the call has returned a response: if a target raises, its exception
  propagates and nothing else happens (no check, no persistence, no feedback);
  otherwise the body returns the response when \<^verbatim>\<open>run_checks\<close> raised nothing and
  raises what \<^verbatim>\<open>run_checks\<close> raised (the grouped check failure or anything else);
  the pair \<open>(case, response)\<close> is appended to the stateful feedback exactly when
  \<^verbatim>\<open>run_checks\<close> raised nothing, and the feedback is left as it was when it raised;
  and on both paths one interaction is persisted when storage is on, with status
  \<open>Failure\<close> for the grouped check failure only, and none when storage is off.
\<close>

theorem feedback_added_only_when_nothing_raised:
  assumes "(call timeout c = Inr response \<and> rt = elapsed_seconds response \<and>
              out = inner_network_test call c chks targets timeout store mrt ts) \<or>
           (call_wsgi c = Inr (response, rt) \<and>
              out = inner_wsgi_test call_wsgi c chks targets store mrt ts) \<or>
           (call_asgi c = Inr response \<and> rt = elapsed_seconds response \<and>
              out = inner_asgi_test call_asgi c chks targets store mrt ts)"
  shows "(let targets_run = run_targets targets
                 \<lparr>tc_case = c, tc_response = response, tc_response_time = rt\<rparr> (ts_targets ts);
              checks_run = run_checks c chks [] (ts_result ts) response
                 (float_multiply rt 1000) mrt
          in case snd targets_run of
               Some e \<Rightarrow> out = (ts\<lparr>ts_targets := fst targets_run\<rparr>, Inl e)
             | None \<Rightarrow>
                 snd out = (case snd checks_run of None \<Rightarrow> Inr response | Some e \<Rightarrow> Inl e) \<and>
                 ts_feedback (fst out) =
                   (if snd checks_run = None then ts_feedback ts @ [(c, response)]
                    else ts_feedback ts) \<and>
                 interactions (ts_result (fst out)) =
                   (if store
                    then interactions (ts_result ts) @
                      [\<lparr>interaction_response = response,
                        interaction_status =
                          (case snd checks_run of
                             Some (CheckFailed n ms) \<Rightarrow> Failure | _ \<Rightarrow> Success),
                        interaction_checks = cs_check_results (fst checks_run)\<rparr>]
                    else interactions (ts_result ts)))"
proof -
  from assms have out: "out = after_call c chks targets store mrt response rt ts"
    by (auto simp: inner_network_test_def inner_wsgi_test_def inner_asgi_test_def)
  show ?thesis
  proof (cases "snd (run_targets targets
             \<lparr>tc_case = c, tc_response = response, tc_response_time = rt\<rparr> (ts_targets ts))")
    case None
    from after_call_checked(1-3) [OF None, of chks store mrt] None show ?thesis
      by (simp add: out Let_def)
  next
    case (Some e)
    from after_call_target_raised [OF Some, of chks store mrt] Some show ?thesis
      by (simp add: out Let_def)
  qed
qed

text \<open>
  An instance of the amended statement: the network body with a failing check and
  storage on (the failure propagates, no feedback, one interaction stored as a
  failure), the WSGI body with a passing check (the pair is added), the ASGI body
  with a target that raises (nothing is changed).
\<close>

theorem feedback_added_only_when_nothing_raised_witness:
  "snd (inner_network_test (\<lambda>t c. Inr example_response) example_case [failing_check]
          [scoring_target] None True None empty_state)
     = Inl (CheckFailed ''GET /users'' [''bad status'']) \<and>
   ts_feedback (fst (inner_network_test (\<lambda>t c. Inr example_response) example_case
          [failing_check] [scoring_target] None True None empty_state)) = [] \<and>
   map interaction_status (interactions (ts_result (fst (inner_network_test
          (\<lambda>t c. Inr example_response) example_case [failing_check] [scoring_target] None True
          None empty_state)))) = [Failure] \<and>
   snd (inner_wsgi_test (\<lambda>c. Inr (example_response, 15 / 100)) example_case [passing_check]
          [scoring_target] False None empty_state) = Inr example_response \<and>
   ts_feedback (fst (inner_wsgi_test (\<lambda>c. Inr (example_response, 15 / 100)) example_case
          [passing_check] [scoring_target] False None empty_state))
     = [(example_case, example_response)] \<and>
   inner_asgi_test (\<lambda>c. Inr example_response) example_case [passing_check] [raising_target]
          True None empty_state = (empty_state, Inl (OtherException ''ValueError''))"
proof -
  let ?net = "inner_network_test (\<lambda>t c. Inr example_response) example_case [failing_check]
          [scoring_target] None True None empty_state"
  let ?wsgi = "inner_wsgi_test (\<lambda>c. Inr (example_response, 15 / 100)) example_case [passing_check]
          [scoring_target] False None empty_state"
  let ?asgi = "inner_asgi_test (\<lambda>c. Inr example_response) example_case [passing_check]
          [raising_target] True None empty_state"
  have n: "snd ?net = Inl (CheckFailed ''GET /users'' [''bad status'']) \<and>
           ts_feedback (fst ?net) = [] \<and>
           map interaction_status (interactions (ts_result (fst ?net))) = [Failure]"
    using feedback_added_only_when_nothing_raised
            [where call = "\<lambda>t c. Inr example_response" and timeout = None and c = example_case
               and response = example_response and rt = "elapsed_seconds example_response"
               and out = ?net and chks = "[failing_check]" and targets = "[scoring_target]"
               and store = True and mrt = None and ts = empty_state]
    by (simp add: Let_def scoring_target_def run_checks_failing_snd empty_state_def
          new_TestResult_def)
  have w: "snd ?wsgi = Inr example_response \<and>
           ts_feedback (fst ?wsgi) = [(example_case, example_response)]"
    using feedback_added_only_when_nothing_raised
            [where call_wsgi = "\<lambda>c. Inr (example_response, 15 / 100)" and c = example_case
               and response = example_response and rt = "15 / 100"
               and out = ?wsgi and chks = "[passing_check]" and targets = "[scoring_target]"
               and store = False and mrt = None and ts = empty_state]
    by (simp add: Let_def scoring_target_def run_checks_passing_snd empty_state_def)
  have a: "?asgi = (empty_state, Inl (OtherException ''ValueError''))"
    using feedback_added_only_when_nothing_raised
            [where call_asgi = "\<lambda>c. Inr example_response" and c = example_case
               and response = example_response and rt = "elapsed_seconds example_response"
               and out = ?asgi and chks = "[passing_check]" and targets = "[raising_target]"
               and store = True and mrt = None and ts = empty_state]
    by (simp add: Let_def raising_target_def empty_state_def)
  from n w a show ?thesis by simp
qed

text \<open>
  The statement as first given fails: the call completes, the check aggregation
  raises the grouped failure, and nothing is added to the feedback.
\<close>

theorem failed_checks_leave_feedback_unchanged:
  "snd (inner_network_test (\<lambda>t c. Inr example_response) example_case
      [failing_check] [] None True None empty_state)
     = Inl (CheckFailed ''GET /users'' [''bad status'']) \<and>
   ts_feedback (fst (inner_network_test (\<lambda>t c. Inr example_response) example_case
      [failing_check] [] None True None empty_state)) = []"
  by (simp add: inner_network_test_def after_call_def run_checks_def failing_check_def
        response_time_check_def assertion_message_def get_grouped_exception_def
        example_case_def empty_state_def Let_def)

text \<open>
  Claim C10, as amended. In \<^verbatim>\<open>_network_test\<close> with interaction storage on, a
  completed call, targets that raise nothing and predicates that raise nothing but
  assertions, the interaction stored holds exactly the entries of the predicates
  that were not skipped, successes and failures alike, whatever the budget; a
  failing synthetic \<^verbatim>\<open>max_response_time\<close> check is the last Check of the
  \<^verbatim>\<open>TestResult\<close> and is not among them; so a stored entry bears that name only if
  a predicate of the list does.
\<close>

theorem stored_checks_omit_response_time_check:
  assumes "call timeout c = Inr response"
    and "snd (run_targets targets
           \<lparr>tc_case = c, tc_response = response, tc_response_time = elapsed_seconds response\<rparr>
           (ts_targets ts)) = None"
    and "no_uncaught c response chks"
  shows "interactions (ts_result (fst (inner_network_test call c chks targets timeout True mrt ts))) =
           interactions (ts_result ts) @
           [\<lparr>interaction_response = response,
             interaction_status =
               (if snd (run_checks c chks [] (ts_result ts) response
                          (float_multiply (elapsed_seconds response) 1000) mrt) = None
                then Success else Failure),
             interaction_checks = concat (map (recorded_entry c response) chks)\<rparr>] \<and>
         (\<forall>b. mrt = Some b \<and> b \<noteq> 0 \<and>
              float_multiply (elapsed_seconds response) 1000 > real_of_int b \<longrightarrow>
            last (checks (ts_result (fst (inner_network_test call c chks targets timeout True mrt ts))))
              = mk_Check ''max_response_time'' Failure c
                  (Some (''Response time exceeded the limit of '' @ str_int b @ '' ms''))) \<and>
         (''max_response_time'' \<notin> fn_name ` set chks \<longrightarrow>
            (\<forall>ch \<in> set (concat (map (recorded_entry c response) chks)).
               check_name ch \<noteq> ''max_response_time''))"
proof -
  let ?ms = "float_multiply (elapsed_seconds response) 1000"
  let ?rc = "run_checks c chks [] (ts_result ts) response ?ms mrt"
  let ?out = "fst (inner_network_test call c chks targets timeout True mrt ts)"
  have out: "?out = fst (after_call c chks targets True mrt response (elapsed_seconds response) ts)"
    using assms(1) by (simp add: inner_network_test_def)
  have status: "(case snd ?rc of Some (CheckFailed n ms) \<Rightarrow> Failure | _ \<Rightarrow> Success) =
                (if snd ?rc = None then Success else Failure)"
    using run_checks_snd [OF assms(3), of "[]" "ts_result ts" ?ms mrt]
    by auto
  have stored: "interactions (ts_result ?out) =
           interactions (ts_result ts) @
           [\<lparr>interaction_response = response,
             interaction_status = (if snd ?rc = None then Success else Failure),
             interaction_checks = concat (map (recorded_entry c response) chks)\<rparr>]"
    by (simp only: out after_call_checked(3) [OF assms(2)] status if_True
          run_checks_check_results [OF assms(3)] append_Nil)
  have recorded: "last (checks (ts_result ?out))
              = mk_Check ''max_response_time'' Failure c
                  (Some (''Response time exceeded the limit of '' @ str_int b @ '' ms''))"
    if "mrt = Some b" "b \<noteq> 0" "?ms > real_of_int b" for b
  proof -
    have "checks (ts_result ?out) = checks (cs_result (fst ?rc))"
      by (simp only: out after_call_checked(4) [OF assms(2)])
    with that show ?thesis
      by (simp add: run_checks_checks [OF assms(3)])
  qed
  have names: "\<forall>ch \<in> set (concat (map (recorded_entry c response) chks)).
               check_name ch \<noteq> ''max_response_time''"
    if "''max_response_time'' \<notin> fn_name ` set chks"
    using that recorded_entry_names [of _ c response chks] by metis
  from stored recorded names show ?thesis by blast
qed

text \<open>
  An instance of the amended statement: a passing and a failing predicate, budget
  100 ms, 150 ms elapsed.
\<close>

theorem stored_checks_omit_response_time_check_witness:
  "no_uncaught example_case example_response [passing_check, failing_check] \<and>
   float_multiply (elapsed_seconds example_response) 1000 > real_of_int 100 \<and>
   map interaction_checks (interactions (ts_result (fst (inner_network_test
      (\<lambda>t c. Inr example_response) example_case [passing_check, failing_check]
      [scoring_target] None True (Some 100) empty_state)))) =
     [[mk_Check ''not_a_server_error'' Success example_case None,
       mk_Check ''status_code_conformance'' Failure example_case (Some ''bad status'')]] \<and>
   last (checks (ts_result (fst (inner_network_test
      (\<lambda>t c. Inr example_response) example_case [passing_check, failing_check]
      [scoring_target] None True (Some 100) empty_state)))) =
     mk_Check ''max_response_time'' Failure example_case
       (Some ''Response time exceeded the limit of 100 ms'')"
proof -
  have h: "no_uncaught example_case example_response [passing_check, failing_check]"
    by (simp add: no_uncaught_def passing_check_def failing_check_def)
  have c: "(\<lambda>t c. Inr example_response) None example_case = (Inr example_response :: exn + Response)"
    by simp
  have t: "snd (run_targets [scoring_target]
           \<lparr>tc_case = example_case, tc_response = example_response,
              tc_response_time = elapsed_seconds example_response\<rparr>
           (ts_targets empty_state)) = None"
    by (simp add: scoring_target_def)
  have s: "str_int 100 = ''100''"
    by (simp add: str_int_def str_nat.simps)
  have e: "float_multiply (elapsed_seconds example_response) 1000 > real_of_int 100"
    by (simp add: float_multiply_example)
  have r: "recorded_entry example_case example_response passing_check @
           recorded_entry example_case example_response failing_check
        = [mk_Check ''not_a_server_error'' Success example_case None,
           mk_Check ''status_code_conformance'' Failure example_case (Some ''bad status'')]"
    by (simp add: recorded_entry_def passing_check_def failing_check_def assertion_message_def)
  show ?thesis
    using h e stored_checks_omit_response_time_check [OF c t h, where mrt = "Some 100"]
    by (simp add: s r empty_state_def new_TestResult_def)
qed

text \<open>
  The statement as first given fails: a predicate named \<^verbatim>\<open>max_response_time\<close> that
  fails is stored, as a failing entry of that name.
\<close>

theorem misnamed_predicate_is_stored:
  "map interaction_checks (interactions (ts_result (fst (inner_network_test
      (\<lambda>t c. Inr example_response) example_case [misnamed_check] [] None True None
      empty_state)))) =
     [[mk_Check ''max_response_time'' Failure example_case (Some ''too slow'')]]"
  by (simp add: inner_network_test_def after_call_def run_checks_def misnamed_check_def
        response_time_check_def assertion_message_def get_grouped_exception_def
        store_requests_response_def add_failure_def empty_state_def new_TestResult_def Let_def)

section \<open>Facts about \<^verbatim>\<open>run_test\<close>\<close>

lemma flaky_test_run:
  "fst (run_test ''GET /users'' flaky_test 0 []) =
     [(BeforeExecution ''GET /users'' 0, []),
      (AfterExecution
         \<lparr>result_endpoint = ''GET /users'',
          checks = [mk_Check ''status_code_conformance'' Failure example_case (Some ''bad status''),
                    mk_Check ''status_code_conformance'' Success other_case None],
          errors = [(Flaky flaky_message, Some other_case)],
          interactions = [], is_errored = True, seed = Some 42\<rparr>
         Error [] ''GET /users'',
       [\<lparr>result_endpoint = ''GET /users'',
          checks = [mk_Check ''status_code_conformance'' Failure example_case (Some ''bad status''),
                    mk_Check ''status_code_conformance'' Success other_case None],
          errors = [(Flaky flaky_message, Some other_case)],
          interactions = [], is_errored = True, seed = Some 42\<rparr>])]"
  by (simp add: run_test_def flaky_test_def Let_def mark_errored_def add_error_def
        add_success_def add_failure_def new_TestResult_def py_or_def mk_Check_def)

text \<open>
  Claim C6, as amended. When the test function raises \<^verbatim>\<open>Flaky\<close>, \<^verbatim>\<open>run_test\<close>
  yields \<open>BeforeExecution\<close> and then \<open>AfterExecution\<close> with status \<open>Error\<close>; the
  result is marked as errored and gets one more error, the synthesized
  \<^verbatim>\<open>Flaky\<close>, with the example of the last recorded Check, whatever the status of
  that Check, or with no example when no Check was recorded.
\<close>

theorem flaky_attaches_example_of_last_check:
  assumes "run_raised (f (new_TestResult endpoint)) = Some (Flaky m)"
  shows "\<exists>r'. fst (run_test endpoint (Callable f s1 s2) level results) =
            [(BeforeExecution endpoint level, results),
             (AfterExecution r' Error (run_output (f (new_TestResult endpoint))) endpoint,
              results @ [r'])] \<and>
          is_errored r' \<and>
          errors r' = errors (run_result (f (new_TestResult endpoint))) @
            [(Flaky flaky_message,
              if checks (run_result (f (new_TestResult endpoint))) = [] then None
              else Some (check_example (last (checks (run_result (f (new_TestResult endpoint)))))))]"
  using assms
  by (simp add: run_test_def Let_def mark_errored_def add_error_def)

text \<open>An instance of the amended statement: a test that records one successful Check and is flaky.\<close>

theorem flaky_attaches_example_of_last_check_witness:
  "run_raised ((\<lambda>r. \<lparr>run_result = add_success ''status_code_conformance'' other_case r,
                       run_feedback = [], run_raised = Some (Flaky ''Flaky''),
                       run_output = []\<rparr>) (new_TestResult ''GET /users'')) = Some (Flaky ''Flaky'') \<and>
   (\<exists>r'. map fst (fst (run_test ''GET /users''
             (Callable (\<lambda>r. \<lparr>run_result = add_success ''status_code_conformance'' other_case r,
                       run_feedback = [], run_raised = Some (Flaky ''Flaky''),
                       run_output = []\<rparr>) None None) 0 [])) =
            [BeforeExecution ''GET /users'' 0, AfterExecution r' Error [] ''GET /users''] \<and>
          is_errored r' \<and> errors r' = [(Flaky flaky_message, Some other_case)])"
proof -
  let ?f = "\<lambda>r. \<lparr>run_result = add_success ''status_code_conformance'' other_case r,
                       run_feedback = [], run_raised = Some (Flaky ''Flaky''),
                       run_output = []\<rparr>"
  have h: "run_raised (?f (new_TestResult ''GET /users'')) = Some (Flaky ''Flaky'')"
    by simp
  from flaky_attaches_example_of_last_check [of ?f "''GET /users''" "''Flaky''" None None 0 "[]", OF h]
  obtain r' where
    "fst (run_test ''GET /users'' (Callable ?f None None) 0 []) =
       [(BeforeExecution ''GET /users'' 0, []),
        (AfterExecution r' Error (run_output (?f (new_TestResult ''GET /users''))) ''GET /users'',
         [] @ [r'])]"
    "is_errored r'"
    "errors r' = errors (run_result (?f (new_TestResult ''GET /users''))) @
            [(Flaky flaky_message,
              if checks (run_result (?f (new_TestResult ''GET /users''))) = [] then None
              else Some (check_example (last (checks (run_result (?f (new_TestResult ''GET /users''))))))) ]"
    by blast
  then have "map fst (fst (run_test ''GET /users'' (Callable ?f None None) 0 [])) =
            [BeforeExecution ''GET /users'' 0, AfterExecution r' Error [] ''GET /users''] \<and>
          is_errored r' \<and> errors r' = [(Flaky flaky_message, Some other_case)]"
    by (simp add: add_success_def new_TestResult_def mk_Check_def)
  then have "\<exists>r'. map fst (fst (run_test ''GET /users'' (Callable ?f None None) 0 [])) =
            [BeforeExecution ''GET /users'' 0, AfterExecution r' Error [] ''GET /users''] \<and>
          is_errored r' \<and> errors r' = [(Flaky flaky_message, Some other_case)]"
    by (rule exI [of _ r'])
  with h show ?thesis by (rule conjI)
qed

text \<open>
  The statement as first given fails: the test records a failing Check on one case, then a
  successful Check on another case, and is flaky; the example attached is that of
  the successful Check, not that of the last failing one.
\<close>

theorem flaky_example_is_not_the_failing_check:
  "(\<exists>r. snd (last (fst (run_test ''GET /users'' flaky_test 0 []))) = [r] \<and>
        snd (last (errors r)) = Some other_case \<and>
        check_example (last (filter (\<lambda>ch. check_value ch = Failure) (checks r))) = example_case) \<and>
   other_case \<noteq> example_case"
  by (simp add: flaky_test_run mk_Check_def other_case_def example_case_def)

section \<open>Facts about the scheduler\<close>

lemma run_test_before_level:
  "(BeforeExecution ep l, res) \<in> set (fst (run_test endpoint test level results)) \<Longrightarrow> l = level"
  by (auto simp: run_test_def Let_def split: test_fn.splits option.splits prod.splits)

lemma until_interrupted_subset:
  "s \<in> set (fst (until_interrupted steps)) \<Longrightarrow> s \<in> set steps"
  by (induction steps) (auto split: if_splits prod.splits)

lemma run_tests_above_limit:
  "level > stateful_recursion_limit cfg \<Longrightarrow> run_tests cfg tests level results = []"
  by (cases tests) auto

lemma run_tests_levels:
  "(BeforeExecution ep l, res) \<in> set (run_tests cfg tests level results) \<Longrightarrow>
     level \<le> l \<and> l \<le> stateful_recursion_limit cfg"
proof (induction cfg tests level results rule: run_tests.induct)
  case (1 cfg recursion_level results)
  then show ?case by simp
next
  case (2 cfg endpoint test rest recursion_level results)
  show ?case
  proof (cases "recursion_level > stateful_recursion_limit cfg")
    case True
    with 2 show ?thesis by simp
  next
    case False
    obtain steps feedback where rt: "run_test endpoint test recursion_level results = (steps, feedback)"
      by (cases "run_test endpoint test recursion_level results")
    obtain fwd stop where ui: "until_interrupted steps = (fwd, stop)"
      by (cases "until_interrupted steps")
    let ?nested = "run_tests cfg (get_stateful_tests cfg endpoint feedback)
                     (recursion_level + 1) (results_after fwd results)"
    let ?others = "run_tests cfg rest recursion_level (results_after (fwd @ ?nested) results)"
    let ?b = "(BeforeExecution ep l, res)"
    from "2.prems" False rt ui
    consider (direct) "?b \<in> set fwd"
      | (nested) "\<not> stop" "?b \<in> set ?nested"
      | (others) "\<not> stop" "?b \<in> set ?others"
      by (auto simp: Let_def split: if_splits)
    then show ?thesis
    proof cases
      case direct
      with ui have "?b \<in> set steps"
        using until_interrupted_subset [of ?b steps] by simp
      with rt have "l = recursion_level"
        using run_test_before_level [of ep l res endpoint test recursion_level results] by simp
      with False show ?thesis by simp
    next
      case nested
      with "2.IH"(1) [OF False refl rt [symmetric] refl ui [symmetric]] show ?thesis by simp
    next
      case others
      with "2.IH"(2) [OF False refl rt [symmetric] refl ui [symmetric] _ refl] show ?thesis by simp
    qed
  qed
qed

lemma example_run_levels:
  "map fst (run_tests example_runner [(''GET /users'', passing_test)] 0 []) =
     [BeforeExecution ''GET /users'' 0,
      AfterExecution ((add_success ''not_a_server_error'' example_case
                         (new_TestResult ''GET /users''))\<lparr>seed := Some 42\<rparr>) Success [] ''GET /users'',
      BeforeExecution ''GET /users/next'' 1,
      AfterExecution ((add_success ''not_a_server_error'' example_case
                         (new_TestResult ''GET /users/next''))\<lparr>seed := Some 42\<rparr>) Success []
        ''GET /users/next'']"
  by (simp add: example_runner_def passing_test_def run_test_def Let_def py_or_def
        results_after_def)

lemma example_run_limit_zero:
  "map fst (run_tests (example_runner\<lparr>stateful_recursion_limit := 0\<rparr>)
              [(''GET /users'', passing_test)] 0 []) =
     [BeforeExecution ''GET /users'' 0,
      AfterExecution ((add_success ''not_a_server_error'' example_case
                         (new_TestResult ''GET /users''))\<lparr>seed := Some 42\<rparr>) Success [] ''GET /users'']"
  by (simp add: example_runner_def passing_test_def run_test_def Let_def py_or_def
        results_after_def)

text \<open>
  Claim C9. A call of \<^verbatim>\<open>_run_tests\<close> at a recursion level above
  \<^verbatim>\<open>stateful_recursion_limit\<close> yields nothing; every test that a call runs
  (every \<open>BeforeExecution\<close> it yields) is at a level from that of the call up to the
  limit; and with the limit \<open>0\<close> every test run is at level \<open>0\<close>, so that no
  test derived from feedback runs.
\<close>

theorem recursion_never_exceeds_limit:
  "(level > stateful_recursion_limit cfg \<longrightarrow> run_tests cfg tests level results = []) \<and>
   (\<forall>ep l res. (BeforeExecution ep l, res) \<in> set (run_tests cfg tests level results) \<longrightarrow>
      level \<le> l \<and> l \<le> stateful_recursion_limit cfg) \<and>
   (stateful_recursion_limit cfg = 0 \<longrightarrow>
      (\<forall>ep l res. (BeforeExecution ep l, res) \<in> set (run_tests cfg tests 0 results) \<longrightarrow> l = 0))"
proof -
  have "l = 0" if "stateful_recursion_limit cfg = 0"
      "(BeforeExecution ep l, res) \<in> set (run_tests cfg tests 0 results)" for ep l res
    using run_tests_levels [OF that(2)] that(1) by simp
  then show ?thesis
    using run_tests_above_limit [of cfg level tests results]
          run_tests_levels [of _ _ _ cfg tests level results]
    by blast
qed

text \<open>
  An instance of the statement: a runner whose feedback always gives one more test: with the limit 1
  the call at level 2 yields nothing and a test runs at level 1; with the limit 0
  the schema's test runs at level 0.
\<close>

theorem recursion_never_exceeds_limit_witness:
  "run_tests example_runner [(''GET /users'', passing_test)] 2 [] = [] \<and>
   BeforeExecution ''GET /users/next'' 1
     \<in> set (map fst (run_tests example_runner [(''GET /users'', passing_test)] 0 [])) \<and>
   (1::int) \<le> stateful_recursion_limit example_runner \<and>
   stateful_recursion_limit (example_runner\<lparr>stateful_recursion_limit := 0\<rparr>) = 0 \<and>
   BeforeExecution ''GET /users'' 0
     \<in> set (map fst (run_tests (example_runner\<lparr>stateful_recursion_limit := 0\<rparr>)
                        [(''GET /users'', passing_test)] 0 []))"
proof -
  let ?tests = "[(''GET /users'', passing_test)]"
  have above: "(2::int) > stateful_recursion_limit example_runner"
    by (simp add: example_runner_def)
  have cut: "run_tests example_runner ?tests 2 [] = []"
    using above recursion_never_exceeds_limit [where level = 2 and cfg = example_runner and tests = ?tests and results = "[]"] by blast
  have mem: "BeforeExecution ''GET /users/next'' 1 \<in> set (map fst (run_tests example_runner ?tests 0 []))"
    unfolding example_run_levels by simp
  then obtain res where "(BeforeExecution ''GET /users/next'' 1, res)
      \<in> set (run_tests example_runner ?tests 0 [])"
    by (auto simp del: run_tests.simps)
  then have bound: "(1::int) \<le> stateful_recursion_limit example_runner"
    using recursion_never_exceeds_limit [where level = 0 and cfg = example_runner and tests = ?tests and results = "[]"] by blast
  have zero: "BeforeExecution ''GET /users'' 0
     \<in> set (map fst (run_tests (example_runner\<lparr>stateful_recursion_limit := 0\<rparr>) ?tests 0 []))"
    unfolding example_run_limit_zero by simp
  from cut mem bound zero show ?thesis by (simp del: run_tests.simps)
qed

section \<open>Facts about the controller\<close>

lemma run_test_after_snapshot:
  "(AfterExecution r st out ep, snap) \<in> set (fst (run_test endpoint test level results)) \<Longrightarrow>
     snap = results @ [r]"
  by (auto simp: run_test_def Let_def split: test_fn.splits option.splits prod.splits)

lemma run_tests_after_snapshot:
  "(AfterExecution r st out ep, snap) \<in> set (run_tests cfg tests level results) \<Longrightarrow>
     snap \<noteq> [] \<and> last snap = r"
proof (induction cfg tests level results rule: run_tests.induct)
  case (1 cfg recursion_level results)
  then show ?case by simp
next
  case (2 cfg endpoint test rest recursion_level results)
  show ?case
  proof (cases "recursion_level > stateful_recursion_limit cfg")
    case True
    with 2 show ?thesis by simp
  next
    case False
    obtain steps feedback where rt: "run_test endpoint test recursion_level results = (steps, feedback)"
      by (cases "run_test endpoint test recursion_level results")
    obtain fwd stop where ui: "until_interrupted steps = (fwd, stop)"
      by (cases "until_interrupted steps")
    let ?nested = "run_tests cfg (get_stateful_tests cfg endpoint feedback)
                     (recursion_level + 1) (results_after fwd results)"
    let ?others = "run_tests cfg rest recursion_level (results_after (fwd @ ?nested) results)"
    let ?a = "(AfterExecution r st out ep, snap)"
    from "2.prems" False rt ui
    consider (direct) "?a \<in> set fwd"
      | (nested) "\<not> stop" "?a \<in> set ?nested"
      | (others) "\<not> stop" "?a \<in> set ?others"
      by (auto simp: Let_def split: if_splits)
    then show ?thesis
    proof cases
      case direct
      with ui have "?a \<in> set steps"
        using until_interrupted_subset [of ?a steps] by simp
      with rt have "snap = results @ [r]"
        using run_test_after_snapshot [of r st out ep snap endpoint test recursion_level results]
        by simp
      then show ?thesis by simp
    next
      case nested
      with "2.IH"(1) [OF False refl rt [symmetric] refl ui [symmetric]] show ?thesis by simp
    next
      case others
      with "2.IH"(2) [OF False refl rt [symmetric] refl ui [symmetric] _ refl] show ?thesis by simp
    qed
  qed
qed

lemma forward_events_stop:
  "\<forall>s \<in> set pre. \<not> is_stop_event (fst s) \<Longrightarrow> is_stop_event ev \<Longrightarrow>
     forward_events True (pre @ (ev, snap) # post) results = (map fst pre, snap)"
proof (induction pre arbitrary: results)
  case Nil
  then show ?case by (simp add: is_stop_event_def)
next
  case (Cons s pre)
  obtain e sn where s: "s = (e, sn)" by (cases s)
  with Cons show ?case by (simp add: is_stop_event_def)
qed

text \<open>
  Claim C1, as amended. With \<^verbatim>\<open>exit_first\<close> on, when the delegated generator
  yields an \<open>AfterExecution\<close> with status \<open>Error\<close> or \<open>Failure\<close> and none before it,
  \<^verbatim>\<open>execute\<close> yields \<open>Initialized\<close>, the events before that one, and \<open>Finished\<close>
  with the results as they are at that yield; the \<open>AfterExecution\<close> event itself is
  not yielded, nor is anything the generator would yield after it. When the
  delegated generator is the scheduler, those results are not empty and the last of
  them is the result of the test that triggered the stop.
\<close>

theorem exit_first_drops_the_failing_event:
  assumes "\<forall>s \<in> set pre. \<not> is_stop_event (fst s)" and "status = Error \<or> status = Failure"
  shows "execute True (pre @ (AfterExecution r status out ep, snap) # post) =
           Initialized # map fst pre @ [Finished snap] \<and>
         AfterExecution r status out ep
           \<notin> set (execute True (pre @ (AfterExecution r status out ep, snap) # post)) \<and>
         (run_tests cfg tests level results = pre @ (AfterExecution r status out ep, snap) # post
            \<longrightarrow> snap \<noteq> [] \<and> last snap = r)"
proof -
  have stop: "is_stop_event (AfterExecution r status out ep)"
    using assms(2) by (simp add: is_stop_event_def)
  have ex: "execute True (pre @ (AfterExecution r status out ep, snap) # post) =
           Initialized # map fst pre @ [Finished snap]"
    by (simp add: execute_def forward_events_stop [OF assms(1) stop])
  have "AfterExecution r status out ep \<notin> fst ` set pre"
    using assms(1) stop by auto
  with ex have absent: "AfterExecution r status out ep
           \<notin> set (execute True (pre @ (AfterExecution r status out ep, snap) # post))"
    by simp
  have "snap \<noteq> [] \<and> last snap = r"
    if "run_tests cfg tests level results = pre @ (AfterExecution r status out ep, snap) # post"
  proof -
    have "(AfterExecution r status out ep, snap) \<in> set (run_tests cfg tests level results)"
      unfolding that by simp
    then show ?thesis by (rule run_tests_after_snapshot)
  qed
  with ex absent show ?thesis by blast
qed

lemma failing_then_passing_run:
  "take 2 (run_tests example_runner
      [(''GET /users'', failing_test), (''GET /orders'', passing_test)] 0 []) =
     [(BeforeExecution ''GET /users'' 0, []),
      (AfterExecution ((add_failure ''status_code_conformance'' example_case ''bad status''
                         (new_TestResult ''GET /users''))\<lparr>seed := Some 42\<rparr>) Failure []
         ''GET /users'',
       [(add_failure ''status_code_conformance'' example_case ''bad status''
           (new_TestResult ''GET /users''))\<lparr>seed := Some 42\<rparr>])]"
  by (simp add: example_runner_def failing_test_def passing_test_def run_test_def Let_def
        py_or_def results_after_def)

text \<open>
  An instance of the amended statement: a failing endpoint followed by a passing
  one, run by the scheduler.
\<close>

theorem exit_first_drops_the_failing_event_witness:
  "\<not> is_stop_event (BeforeExecution ''GET /users'' 0) \<and>
   execute True (run_tests example_runner
      [(''GET /users'', failing_test), (''GET /orders'', passing_test)] 0 []) =
     [Initialized, BeforeExecution ''GET /users'' 0,
      Finished [(add_failure ''status_code_conformance'' example_case ''bad status''
                   (new_TestResult ''GET /users''))\<lparr>seed := Some 42\<rparr>]] \<and>
   last [(add_failure ''status_code_conformance'' example_case ''bad status''
           (new_TestResult ''GET /users''))\<lparr>seed := Some 42\<rparr>] =
     (add_failure ''status_code_conformance'' example_case ''bad status''
        (new_TestResult ''GET /users''))\<lparr>seed := Some 42\<rparr>"
proof -
  let ?run = "run_tests example_runner
      [(''GET /users'', failing_test), (''GET /orders'', passing_test)] 0 []"
  let ?r = "(add_failure ''status_code_conformance'' example_case ''bad status''
              (new_TestResult ''GET /users''))\<lparr>seed := Some 42\<rparr>"
  let ?pre = "[(BeforeExecution ''GET /users'' 0, [] :: TestResult list)]"
  have b: "\<not> is_stop_event (BeforeExecution ''GET /users'' 0)"
    by (simp add: is_stop_event_def)
  then have h: "\<forall>s \<in> set ?pre. \<not> is_stop_event (fst s)" by simp
  have st: "Failure = Error \<or> Failure = Failure" by simp
  have "?run = take 2 ?run @ drop 2 ?run" by (simp only: append_take_drop_id)
  then have dec: "?run = ?pre @ (AfterExecution ?r Failure [] ''GET /users'', [?r]) # drop 2 ?run"
    by (simp only: failing_then_passing_run append_Cons append_Nil)
  note inst = exit_first_drops_the_failing_event [OF h st, where r = ?r and out = "[]"
      and ep = "''GET /users''" and snap = "[?r]" and post = "drop 2 ?run"
      and cfg = example_runner
      and tests = "[(''GET /users'', failing_test), (''GET /orders'', passing_test)]"
      and level = 0 and results = "[]"]
  from inst dec have "execute True ?run = Initialized # map fst ?pre @ [Finished [?r]]"
    by (simp only:)
  moreover from inst dec have "last [?r] = ?r" by blast
  ultimately show ?thesis using b by simp
qed

text \<open>
  The statement as first given fails: one failing endpoint, \<^verbatim>\<open>exit_first\<close> on. The scheduler
  yields the \<open>AfterExecution\<close> with status \<open>Failure\<close>; the output of \<^verbatim>\<open>execute\<close>
  does not have it, and \<open>Finished\<close> carries that endpoint's result.
\<close>

theorem exit_first_output_lacks_failing_event:
  "map fst (run_tests example_runner [(''GET /users'', failing_test)] 0 []) =
     [BeforeExecution ''GET /users'' 0,
      AfterExecution ((add_failure ''status_code_conformance'' example_case ''bad status''
                         (new_TestResult ''GET /users''))\<lparr>seed := Some 42\<rparr>) Failure []
        ''GET /users''] \<and>
   execute True (run_tests example_runner [(''GET /users'', failing_test)] 0 []) =
     [Initialized, BeforeExecution ''GET /users'' 0,
      Finished [(add_failure ''status_code_conformance'' example_case ''bad status''
                   (new_TestResult ''GET /users''))\<lparr>seed := Some 42\<rparr>]]"
  by (simp add: example_runner_def failing_test_def run_test_def Let_def py_or_def
        results_after_def execute_def)

lemma run_test_interrupted:
  assumes "run_raised (f (new_TestResult endpoint)) = Some KeyboardInterrupt"
  shows "fst (run_test endpoint (Callable f s1 s2) level results) =
           [(BeforeExecution endpoint level, results), (Interrupted, results)]"
  using assms by (simp add: run_test_def Let_def)

text \<open>
  Claim C2, as amended. When the test function raises \<^verbatim>\<open>KeyboardInterrupt\<close>,
  \<^verbatim>\<open>run_test\<close> yields \<open>BeforeExecution\<close> and one \<open>Interrupted\<close> and appends no
  \<^verbatim>\<open>TestResult\<close>; the call of \<^verbatim>\<open>_run_tests\<close> that runs it returns there, leaving
  its other tests; and \<^verbatim>\<open>execute\<close> over that call still ends with \<open>Finished\<close>.
\<close>

theorem interruption_stops_the_scheduler_call:
  assumes "run_raised (f (new_TestResult endpoint)) = Some KeyboardInterrupt"
    and "level \<le> stateful_recursion_limit cfg"
  shows "fst (run_test endpoint (Callable f s1 s2) level results) =
           [(BeforeExecution endpoint level, results), (Interrupted, results)] \<and>
         run_tests cfg ((endpoint, Callable f s1 s2) # rest) level results =
           [(BeforeExecution endpoint level, results), (Interrupted, results)] \<and>
         execute stop_first (run_tests cfg ((endpoint, Callable f s1 s2) # rest) level results) =
           [Initialized, BeforeExecution endpoint level, Interrupted, Finished results]"
proof -
  obtain fb where rt: "run_test endpoint (Callable f s1 s2) level results =
      ([(BeforeExecution endpoint level, results), (Interrupted, results)], fb)"
    using run_test_interrupted [of f endpoint s1 s2 level results, OF assms(1)]
    by (cases "run_test endpoint (Callable f s1 s2) level results") simp
  have sched: "run_tests cfg ((endpoint, Callable f s1 s2) # rest) level results =
           [(BeforeExecution endpoint level, results), (Interrupted, results)]"
    using assms(2) by (simp add: rt)
  have "execute stop_first [(BeforeExecution endpoint level, results), (Interrupted, results)] =
           [Initialized, BeforeExecution endpoint level, Interrupted, Finished results]"
    by (simp add: execute_def)
  with rt sched show ?thesis by simp
qed

text \<open>An instance of the amended statement: an interrupted first endpoint followed by another endpoint.\<close>

theorem interruption_stops_the_scheduler_call_witness:
  "(0::int) \<le> stateful_recursion_limit example_runner \<and>
   execute True (run_tests example_runner
       [(''GET /users'', interrupted_test), (''GET /orders'', passing_test)] 0 []) =
     [Initialized, BeforeExecution ''GET /users'' 0, Interrupted, Finished []]"
proof -
  let ?f = "\<lambda>r. \<lparr>run_result = r, run_feedback = [],
                     run_raised = Some KeyboardInterrupt, run_output = []\<rparr>"
  have h: "run_raised (?f (new_TestResult ''GET /users'')) = Some KeyboardInterrupt" by simp
  have l: "(0::int) \<le> stateful_recursion_limit example_runner"
    by (simp add: example_runner_def)
  note run = interruption_stops_the_scheduler_call [where f = ?f and endpoint = "''GET /users''"
        and level = 0 and cfg = example_runner and ?s1.0 = None and ?s2.0 = None
        and results = "[]" and rest = "[(''GET /orders'', passing_test)]" and stop_first = True,
        OF h l]
  show ?thesis
    unfolding interrupted_test_def
    using l run [THEN conjunct2, THEN conjunct2] by (rule conjI)
qed

text \<open>
  The statement as first given fails: the run is interrupted and its event stream has a \<open>Finished\<close>
  event.
\<close>

theorem interrupted_run_emits_finished:
  "Finished [] \<in> set (execute False (run_tests example_runner
       [(''GET /users'', interrupted_test)] 0 [])) \<and>
   execute False (run_tests example_runner [(''GET /users'', interrupted_test)] 0 []) =
     [Initialized, BeforeExecution ''GET /users'' 0, Interrupted, Finished []]"
  by (simp add: example_runner_def interrupted_test_def run_test_def Let_def execute_def)

text \<open>
  An interruption inside the nested call ends that call only: the loop of the
  enclosing call goes on with its next endpoint, and a second \<open>Interrupted\<close> can
  follow.
\<close>

lemma nested_interruption_does_not_stop_outer_loop:
  "map fst (run_tests interrupting_runner
       [(''GET /users'', passing_test), (''GET /orders'', interrupted_test)] 0 []) =
     [BeforeExecution ''GET /users'' 0,
      AfterExecution ((add_success ''not_a_server_error'' example_case
                         (new_TestResult ''GET /users''))\<lparr>seed := Some 42\<rparr>) Success [] ''GET /users'',
      BeforeExecution ''GET /users/next'' 1, Interrupted,
      BeforeExecution ''GET /orders'' 0, Interrupted]"
  by (simp add: interrupting_runner_def passing_test_def interrupted_test_def run_test_def
        Let_def py_or_def results_after_def)

end
